theory Spec2Isabelle
  imports Main "HOL-Library.Sublist" "HOL-Library.Monad_Syntax" "HOL-Library.AList"
begin

section \<open>Text: the operations of Python's \<open>str\<close> that \<open>build.py\<close> uses\<close>

text \<open>
  A text is the list of its code points. \<^typ>\<open>char\<close> has 256 values, so the model covers
  the texts whose code points are below 256, and classifies them as Python does
  (\<open>str.isspace\<close>, \<open>str.lower\<close>, the classes \<open>\s\<close>, \<open>\d\<close> and \<open>\w\<close> of \<open>re\<close>).
  Console messages (\<open>print\<close>) are not part of the model.
\<close>

definition isspace :: "char \<Rightarrow> bool" where
  \<comment> \<open>\<open>str.isspace\<close>, and the class \<open>\s\<close> of a \<open>str\<close> pattern\<close>
  "isspace c = (c \<in> set [CHR 0x09, CHR 0x0A, CHR 0x0B, CHR 0x0C, CHR 0x0D,
                           CHR 0x1C, CHR 0x1D, CHR 0x1E, CHR 0x1F, CHR 0x20,
                           CHR 0x85, CHR 0xA0])"

definition isdigit :: "char \<Rightarrow> bool" where
  \<comment> \<open>the class \<open>\d\<close>, and the digits \<open>int\<close> reads\<close>
  "isdigit c = (c \<in> set ''0123456789'')"

definition isword :: "char \<Rightarrow> bool" where
  \<comment> \<open>the class \<open>\w\<close>: \<open>str.isalnum\<close> or the underscore\<close>
  "isword c = (c \<in> set (''abcdefghijklmnopqrstuvwxyzABCDEFGHIJKLMNOPQRSTUVWXYZ0123456789_'' @
      [CHR 0xAA, CHR 0xB2, CHR 0xB3, CHR 0xB5, CHR 0xB9, CHR 0xBA, CHR 0xBC, CHR 0xBD, CHR 0xBE,
       CHR 0xC0, CHR 0xC1, CHR 0xC2, CHR 0xC3, CHR 0xC4, CHR 0xC5, CHR 0xC6, CHR 0xC7,
       CHR 0xC8, CHR 0xC9, CHR 0xCA, CHR 0xCB, CHR 0xCC, CHR 0xCD, CHR 0xCE, CHR 0xCF,
       CHR 0xD0, CHR 0xD1, CHR 0xD2, CHR 0xD3, CHR 0xD4, CHR 0xD5, CHR 0xD6,
       CHR 0xD8, CHR 0xD9, CHR 0xDA, CHR 0xDB, CHR 0xDC, CHR 0xDD, CHR 0xDE, CHR 0xDF,
       CHR 0xE0, CHR 0xE1, CHR 0xE2, CHR 0xE3, CHR 0xE4, CHR 0xE5, CHR 0xE6, CHR 0xE7,
       CHR 0xE8, CHR 0xE9, CHR 0xEA, CHR 0xEB, CHR 0xEC, CHR 0xED, CHR 0xEE, CHR 0xEF,
       CHR 0xF0, CHR 0xF1, CHR 0xF2, CHR 0xF3, CHR 0xF4, CHR 0xF5, CHR 0xF6,
       CHR 0xF8, CHR 0xF9, CHR 0xFA, CHR 0xFB, CHR 0xFC, CHR 0xFD, CHR 0xFE, CHR 0xFF]))"

definition upper_chars :: string where
  "upper_chars = ''ABCDEFGHIJKLMNOPQRSTUVWXYZ'' @
      [CHR 0xC0, CHR 0xC1, CHR 0xC2, CHR 0xC3, CHR 0xC4, CHR 0xC5, CHR 0xC6, CHR 0xC7,
       CHR 0xC8, CHR 0xC9, CHR 0xCA, CHR 0xCB, CHR 0xCC, CHR 0xCD, CHR 0xCE, CHR 0xCF,
       CHR 0xD0, CHR 0xD1, CHR 0xD2, CHR 0xD3, CHR 0xD4, CHR 0xD5, CHR 0xD6,
       CHR 0xD8, CHR 0xD9, CHR 0xDA, CHR 0xDB, CHR 0xDC, CHR 0xDD, CHR 0xDE]"

definition lower_chars :: string where
  "lower_chars = ''abcdefghijklmnopqrstuvwxyz'' @
      [CHR 0xE0, CHR 0xE1, CHR 0xE2, CHR 0xE3, CHR 0xE4, CHR 0xE5, CHR 0xE6, CHR 0xE7,
       CHR 0xE8, CHR 0xE9, CHR 0xEA, CHR 0xEB, CHR 0xEC, CHR 0xED, CHR 0xEE, CHR 0xEF,
       CHR 0xF0, CHR 0xF1, CHR 0xF2, CHR 0xF3, CHR 0xF4, CHR 0xF5, CHR 0xF6,
       CHR 0xF8, CHR 0xF9, CHR 0xFA, CHR 0xFB, CHR 0xFC, CHR 0xFD, CHR 0xFE]"

definition char_lower :: "char \<Rightarrow> char" where
  "char_lower c = (case map_of (zip upper_chars lower_chars) c of Some l \<Rightarrow> l | None \<Rightarrow> c)"

definition str_lower :: "string \<Rightarrow> string" where
  \<comment> \<open>\<open>s.lower()\<close>\<close>
  "str_lower s = map char_lower s"

definition str_strip :: "string \<Rightarrow> string" where
  \<comment> \<open>\<open>s.strip()\<close>\<close>
  "str_strip s = rev (dropWhile isspace (rev (dropWhile isspace s)))"

definition str_lstrip_chars :: "string \<Rightarrow> string \<Rightarrow> string" where
  \<comment> \<open>\<open>s.lstrip(chars)\<close>\<close>
  "str_lstrip_chars chars s = dropWhile (\<lambda>c. c \<in> set chars) s"

definition str_rstrip_chars :: "string \<Rightarrow> string \<Rightarrow> string" where
  \<comment> \<open>\<open>s.rstrip(chars)\<close>\<close>
  "str_rstrip_chars chars s = rev (dropWhile (\<lambda>c. c \<in> set chars) (rev s))"

definition str_strip_chars :: "string \<Rightarrow> string \<Rightarrow> string" where
  \<comment> \<open>\<open>s.strip(chars)\<close>\<close>
  "str_strip_chars chars s = str_rstrip_chars chars (str_lstrip_chars chars s)"

definition startswith :: "string \<Rightarrow> string \<Rightarrow> bool" where
  \<comment> \<open>\<open>s.startswith(p)\<close>\<close>
  "startswith s p = prefix p s"

fun str_find :: "string \<Rightarrow> string \<Rightarrow> nat option" where
  \<comment> \<open>\<open>s.find(sub)\<close>: where \<open>sub\<close> first occurs in \<open>s\<close>, \<open>None\<close> for Python's -1\<close>
  "str_find sub [] = (if sub = [] then Some 0 else None)"
| "str_find sub (c # cs) =
     (if prefix sub (c # cs) then Some 0 else map_option Suc (str_find sub cs))"

definition str_contains :: "string \<Rightarrow> string \<Rightarrow> bool" where
  \<comment> \<open>\<open>sub in s\<close>\<close>
  "str_contains sub s = (str_find sub s \<noteq> None)"

definition str_partition :: "string \<Rightarrow> string \<Rightarrow> string \<times> string \<times> string" where
  \<comment> \<open>\<open>s.partition(sep)\<close>\<close>
  "str_partition sep s =
     (case str_find sep s of
        None \<Rightarrow> (s, [], [])
      | Some i \<Rightarrow> (take i s, sep, drop (i + length sep) s))"

fun str_join :: "string \<Rightarrow> string list \<Rightarrow> string" where
  \<comment> \<open>\<open>sep.join(xs)\<close>\<close>
  "str_join sep [] = []"
| "str_join sep [x] = x"
| "str_join sep (x # y # ys) = x @ sep @ str_join sep (y # ys)"

lemma str_find_bound: "str_find sub s = Some i \<Longrightarrow> i + length sub \<le> length s"
proof (induction s arbitrary: i)
  case Nil
  then show ?case by (simp split: if_splits)
next
  case (Cons c cs)
  show ?case
  proof (cases "prefix sub (c # cs)")
    case True
    from prefix_length_le [OF True] have "length sub \<le> Suc (length cs)" by simp
    moreover from True Cons.prems have "i = 0" by simp
    ultimately show ?thesis by simp
  next
    case False
    with Cons.prems obtain j where j: "str_find sub cs = Some j" and i: "i = Suc j"
      by (cases "str_find sub cs") simp_all
    from Cons.IH [OF j] i show ?thesis by simp
  qed
qed

lemma str_find_diff_less:
  assumes "str_find sep s = Some i" and "sep \<noteq> []"
  shows "length s - (i + length sep) < length s"
proof -
  from assms(2) obtain c cs where "sep = c # cs" by (cases sep) auto
  then have "1 \<le> length sep" by simp
  with str_find_bound [OF assms(1)] show ?thesis by arith
qed

text \<open>
  \<open>s.split(sep)\<close> and \<open>s.replace(old, new)\<close>. Python refuses to split at an empty
  separator (\<open>ValueError\<close>); the program only splits at the literals \<open>'\n'\<close> and \<open>' - '\<close>, and
  the value \<open>[s]\<close> that the model gives an empty separator is never used.
\<close>

function str_split :: "string \<Rightarrow> string \<Rightarrow> string list" where
  "str_split sep s =
     (case str_find sep s of
        None \<Rightarrow> [s]
      | Some i \<Rightarrow> if sep = [] then [s]
                  else take i s # str_split sep (drop (i + length sep) s))"
  by pat_completeness auto
termination
  by (relation "measure (\<lambda>(sep, s). length s)") (simp_all add: str_find_diff_less)

function str_replace :: "string \<Rightarrow> string \<Rightarrow> string \<Rightarrow> string" where
  "str_replace old new s =
     (if old = [] then new @ concat (map (\<lambda>c. c # new) s)
      else (case str_find old s of
              None \<Rightarrow> s
            | Some i \<Rightarrow> take i s @ new @ str_replace old new (drop (i + length old) s)))"
  by pat_completeness auto
termination
  by (relation "measure (\<lambda>(old, new, s). length s)") (simp_all add: str_find_diff_less)

declare str_split.simps [simp del] str_replace.simps [simp del]

fun str_of_nat :: "nat \<Rightarrow> string" where
  \<comment> \<open>\<open>str(n)\<close> of a counter\<close>
  "str_of_nat n =
     (if n < 10 then [''0123456789'' ! n]
      else str_of_nat (n div 10) @ [''0123456789'' ! (n mod 10)])"

declare str_of_nat.simps [simp del]

section \<open>The two patterns of \<open>parse_markdown\<close>\<close>

text \<open>
  Python's \<open>re\<close> matches by backtracking: a greedy \<open>X+\<close> first takes the longest run and
  gives characters back one at a time. A pattern is modelled by the list of its matches at
  the start of the text in that order, so that the match \<open>re\<close> reports is the head of the list.
\<close>

definition greedy_plus :: "(char \<Rightarrow> bool) \<Rightarrow> string \<Rightarrow> (string \<times> string) list" where
  \<comment> \<open>what \<open>X+\<close> can take and what it leaves, longest first\<close>
  "greedy_plus P s =
     map (\<lambda>n. (take n s, drop n s)) (rev [1..<Suc (length (takeWhile P s))])"

definition lit :: "char \<Rightarrow> string \<Rightarrow> string list" where
  \<comment> \<open>one literal character\<close>
  "lit c s = (case s of [] \<Rightarrow> [] | x # xs \<Rightarrow> if x = c then [xs] else [])"

definition title_matches :: "string \<Rightarrow> (string \<times> string) list" where
  \<comment> \<open>\<open>#\s+([^(]+)\s+\(([^)]+)\)\<close>, with its two groups\<close>
  "title_matches s = do {
     r0 \<leftarrow> lit CHR ''#'' s;
     (w1, r1) \<leftarrow> greedy_plus isspace r0;
     (g1, r2) \<leftarrow> greedy_plus (\<lambda>c. c \<noteq> CHR ''('') r1;
     (w2, r3) \<leftarrow> greedy_plus isspace r2;
     r4 \<leftarrow> lit CHR ''('' r3;
     (g2, r5) \<leftarrow> greedy_plus (\<lambda>c. c \<noteq> CHR '')'') r4;
     r6 \<leftarrow> lit CHR '')'' r5;
     [(g1, g2)]
   }"

definition re_match_title :: "string \<Rightarrow> (string \<times> string) option" where
  \<comment> \<open>\<open>re.match(r'#\s+([^(]+)\s+\(([^)]+)\)', s)\<close>: groups 1 and 2\<close>
  "re_match_title s = (case title_matches s of [] \<Rightarrow> None | m # _ \<Rightarrow> Some m)"

fun re_search_digits :: "string \<Rightarrow> string option" where
  \<comment> \<open>\<open>re.search(r'(\d+)', s)\<close>: group 1 of the leftmost match\<close>
  "re_search_digits [] = None"
| "re_search_digits (c # cs) =
     (case greedy_plus isdigit (c # cs) of
        (g, r) # _ \<Rightarrow> Some g
      | [] \<Rightarrow> re_search_digits cs)"

section \<open>The Record\<close>

text \<open>
  \<open>parse_markdown\<close> builds a \<open>dict\<close>. Every entry holds a text but \<open>key_insights\<close>, which
  holds a list of texts; the model keeps the text entries as a map from keys and the
  \<open>key_insights\<close> entry beside it, each absent or present as in the \<open>dict\<close>.
\<close>

record company =
  strs :: "string \<rightharpoonup> string"
  key_insights :: "string list option"

definition dict_get :: "('k \<rightharpoonup> 'v) \<Rightarrow> 'k \<Rightarrow> 'v \<Rightarrow> 'v" where
  \<comment> \<open>\<open>m.get(k, default)\<close>\<close>
  "dict_get m k dflt = (case m k of Some v \<Rightarrow> v | None \<Rightarrow> dflt)"

definition get_str :: "company \<Rightarrow> string \<Rightarrow> string \<Rightarrow> string" where
  \<comment> \<open>\<open>data.get(k, default)\<close> for a key other than \<open>key_insights\<close>\<close>
  "get_str d k dflt = dict_get (strs d) k dflt"

definition get_key_insights :: "company \<Rightarrow> string list" where
  \<comment> \<open>\<open>data.get("key_insights", [])\<close>\<close>
  "get_key_insights d = (case key_insights d of Some v \<Rightarrow> v | None \<Rightarrow> [])"

definition set_str :: "company \<Rightarrow> string \<Rightarrow> string \<Rightarrow> company" where
  \<comment> \<open>\<open>data[k] = v\<close> for a key other than \<open>key_insights\<close>\<close>
  "set_str d k v = d\<lparr>strs := (strs d)(k \<mapsto> v)\<rparr>"

definition initial_data :: company where
  "initial_data =
     \<lparr>strs = [''ticker'' \<mapsto> [],
              ''company_name'' \<mapsto> [],
              ''ai_score'' \<mapsto> [],
              ''robotics_score'' \<mapsto> [],
              ''ai_beneficiary'' \<mapsto> [],
              ''robotics_beneficiary'' \<mapsto> [],
              ''value_chain'' \<mapsto> [],
              ''final_classification'' \<mapsto> ''TEMP_MARKER'',
              ''macro_risk'' \<mapsto> [],
              ''moat_sources'' \<mapsto> [],
              ''q1'' \<mapsto> [], ''q2'' \<mapsto> [], ''q3'' \<mapsto> [], ''q4'' \<mapsto> [],
              ''q5'' \<mapsto> [], ''q6'' \<mapsto> [], ''q7'' \<mapsto> [], ''q8'' \<mapsto> []],
      key_insights = Some []\<rparr>"

section \<open>\<open>parse_markdown\<close>\<close>

subsection \<open>The title\<close>

fun extract_title :: "string list \<Rightarrow> company \<Rightarrow> company" where
  \<comment> \<open>the first loop: the first line that matches sets both fields and ends the loop\<close>
  "extract_title [] d = d"
| "extract_title (line # rest) d =
     (case re_match_title (str_strip line) of
        Some (g1, g2) \<Rightarrow>
          set_str (set_str d ''company_name'' (str_strip g1)) ''ticker'' (str_strip g2)
      | None \<Rightarrow> extract_title rest d)"

subsection \<open>The scan for sections and \<open>key: value\<close> lines\<close>

record scan_state =
  data :: company
  current_section :: "string option"
  current_value :: "string list"

definition flush :: "company \<Rightarrow> string option \<Rightarrow> string list \<Rightarrow> company" where
  \<comment> \<open>\<open>if current_section and current_value: ...\<close>: an empty key or list is false\<close>
  "flush d sec val =
     (case sec of
        None \<Rightarrow> d
      | Some k \<Rightarrow>
          if k \<noteq> [] \<and> val \<noteq> [] then
            (if k = ''key_insights''
             then d\<lparr>key_insights :=
                      Some (map (str_lstrip_chars ''- '') (filter (\<lambda>l. str_strip l \<noteq> []) val))\<rparr>
             else set_str d k (str_strip (str_join '' '' val)))
          else d)"

definition store_pair :: "company \<Rightarrow> string \<Rightarrow> string \<Rightarrow> company" where
  \<comment> \<open>the chain \<open>if key == ... elif key == ...\<close> of the recognised keys\<close>
  "store_pair d k v =
     (if k = ''AI Software Vulnerability Score'' then
        (case re_search_digits v of Some g \<Rightarrow> set_str d ''ai_score'' g | None \<Rightarrow> d)
      else if k = ''Robotics Vulnerability Score'' then
        (case re_search_digits v of Some g \<Rightarrow> set_str d ''robotics_score'' g | None \<Rightarrow> d)
      else if k = ''AI Beneficiary'' then set_str d ''ai_beneficiary'' v
      else if k = ''Robotics Beneficiary'' then set_str d ''robotics_beneficiary'' v
      else if k = ''Value Chain Position'' then set_str d ''value_chain'' v
      else if k = ''Final Classification'' then set_str d ''final_classification'' v
      else if k = ''Macro Contagion Risk'' then set_str d ''macro_risk'' v
      else d)"

definition written_keys :: "string list" where
  \<comment> \<open>the entries that \<open>store_pair\<close> can write\<close>
  "written_keys = [''ai_score'', ''robotics_score'', ''ai_beneficiary'', ''robotics_beneficiary'',
                   ''value_chain'', ''final_classification'', ''macro_risk'']"

definition line_key :: "string \<Rightarrow> string" where
  \<comment> \<open>\<open>key.strip().rstrip('*').strip('-* ')\<close> of \<open>key, _, value = line.partition(':')\<close>\<close>
  "line_key line =
     (case str_partition '':'' line of
        (k, _, v) \<Rightarrow> str_strip_chars ''-* '' (str_rstrip_chars ''*'' (str_strip k)))"

definition line_value :: "string \<Rightarrow> string" where
  \<comment> \<open>\<open>value.strip()\<close>\<close>
  "line_value line = (case str_partition '':'' line of (k, _, v) \<Rightarrow> str_strip v)"

definition scan_line :: "scan_state \<Rightarrow> string \<Rightarrow> scan_state" where
  \<comment> \<open>the body of the second loop\<close>
  "scan_line st raw =
     (let line = str_strip raw in
      if line = [] \<or> startswith line ''#'' then
        \<lparr>data = flush (data st) (current_section st) (current_value st),
         current_section = None,
         current_value = []\<rparr>
      else if str_contains '':'' line then
        st\<lparr>data := store_pair (data st) (line_key line) (line_value line)\<rparr>
      else st)"

subsection \<open>The pass for Moat Sources and Key Insights\<close>

record section_state =
  in_moat :: bool
  in_insights :: bool
  moat_lines :: "string list"
  insight_lines :: "string list"

definition section_line :: "section_state \<Rightarrow> string \<Rightarrow> section_state" where
  \<comment> \<open>the body of the third loop\<close>
  "section_line st raw =
     (let line = str_strip raw in
      if line = ''## Moat Sources'' then st\<lparr>in_moat := True, in_insights := False\<rparr>
      else if line = ''## Key Insights'' then st\<lparr>in_moat := False, in_insights := True\<rparr>
      else if startswith line ''## Pressure'' then st\<lparr>in_moat := False, in_insights := False\<rparr>
      else if in_moat st \<and> line \<noteq> [] then st\<lparr>moat_lines := moat_lines st @ [line]\<rparr>
      else if in_insights st \<and> startswith line ''- ''
        then st\<lparr>insight_lines := insight_lines st @ [drop 2 line]\<rparr>
      else st)"

definition section_start :: section_state where
  "section_start = \<lparr>in_moat = False, in_insights = False, moat_lines = [], insight_lines = []\<rparr>"

subsection \<open>The parser\<close>

definition scan_start :: "company \<Rightarrow> scan_state" where
  "scan_start d = \<lparr>data = d, current_section = None, current_value = []\<rparr>"

definition parse_lines :: "string list \<Rightarrow> company" where
  "parse_lines lines =
     (let d1 = extract_title lines initial_data;
          s2 = foldl scan_line (scan_start d1) lines;
          s3 = foldl section_line section_start lines;
          d3 = set_str (data s2) ''moat_sources'' (str_strip (str_join '' '' (moat_lines s3)))
      in d3\<lparr>key_insights := Some (insight_lines s3)\<rparr>)"

definition parse_content :: "string \<Rightarrow> company" where
  \<comment> \<open>\<open>parse_markdown\<close> after \<open>content = file_path.read_text(encoding='utf-8')\<close>\<close>
  "parse_content content = parse_lines (str_split [CHR 0x0A] content)"

section \<open>Style classes\<close>

datatype pyval = PyStr string | PyInt int

definition int_max_str_digits :: nat where
  \<comment> \<open>CPython's default limit on the digits \<open>int\<close> converts\<close>
  "int_max_str_digits = 4300"

definition int_isspace :: "char \<Rightarrow> bool" where
  \<comment> \<open>the blanks that \<open>int\<close> skips around a number: it turns the spaces above ASCII into
      \<open>' '\<close> and then skips the blanks of C's \<open>isspace\<close>, so unlike \<open>str.strip\<close> it does not
      skip the separators 0x1C to 0x1F\<close>
  "int_isspace c = (c \<in> set [CHR 0x09, CHR 0x0A, CHR 0x0B, CHR 0x0C, CHR 0x0D, CHR 0x20,
                               CHR 0x85, CHR 0xA0])"

definition int_strip :: "string \<Rightarrow> string" where
  "int_strip s = rev (dropWhile int_isspace (rev (dropWhile int_isspace s)))"

definition int_of_str :: "string \<Rightarrow> int option" where
  \<comment> \<open>\<open>int(s)\<close> of a text, \<open>None\<close> for \<open>ValueError\<close>: blanks around, a sign, then digits,
      single underscores between them allowed\<close>
  "int_of_str s =
     (let t = int_strip s;
          neg = startswith t ''-'';
          body = (if startswith t ''-'' \<or> startswith t ''+'' then drop 1 t else t);
          groups = str_split ''_'' body;
          ds = concat groups
      in if list_all (\<lambda>g. g \<noteq> [] \<and> list_all isdigit g) groups
            \<and> length ds \<le> int_max_str_digits
         then Some ((if neg then - 1 else 1) *
                    int (foldl (\<lambda>a c. 10 * a + (of_char c - 48)) 0 ds))
         else None)"

definition py_int :: "pyval \<Rightarrow> int option" where
  \<comment> \<open>\<open>int(score)\<close>\<close>
  "py_int v = (case v of PyInt i \<Rightarrow> Some i | PyStr s \<Rightarrow> int_of_str s)"

definition get_score_class :: "pyval \<Rightarrow> string" where
  "get_score_class score =
     (case py_int score of
        Some n \<Rightarrow>
          if n \<le> 3 then ''text-green-600''
          else if n \<le> 6 then ''text-yellow-600''
          else ''text-red-600''
      | None \<Rightarrow> ''text-gray-600'')"

definition get_macro_risk_class :: "string \<Rightarrow> string" where
  "get_macro_risk_class risk =
     (let risk_lower = str_lower risk in
      if str_contains ''low'' risk_lower then ''text-green-600''
      else if str_contains ''medium'' risk_lower then ''text-yellow-600''
      else ''text-red-600'')"

definition CLASSIFICATION_MAP :: "(string \<times> string \<times> string \<times> string) list" where
  "CLASSIFICATION_MAP =
     [(''Unsloppable + Beneficiary'',
         (''bg-green-100 text-green-800'', ''Unsloppable'' @ [CHR 0x0A] @ ''+Beneficiary'',
          ''UnsloppableBeneficiary'')),
      (''Unsloppable + High Transition Risk'',
         (''bg-blue-100 text-blue-800'', ''High'' @ [CHR 0x0A] @ ''Transition'',
          ''UnsloppableHighTransitionRisk'')),
      (''Unsloppable + Macro Exposed'',
         (''bg-yellow-100 text-yellow-800'', ''Macro'' @ [CHR 0x0A] @ ''Exposed'',
          ''UnsloppableMacroExposed'')),
      (''Sloppable + Beneficiary'',
         (''bg-red-100 text-red-800'', ''Sloppable'' @ [CHR 0x0A] @ ''+Beneficiary'',
          ''SloppableBeneficiary'')),
      (''Sloppable + Clankerable'',
         (''bg-red-200 text-red-900'', ''Sloppable'' @ [CHR 0x0A] @ ''+Clankerable'',
          ''SloppableClankerable''))]"

definition classification_of :: "string \<Rightarrow> string \<times> string \<times> string" where
  \<comment> \<open>\<open>CLASSIFICATION_MAP.get(classification, ("bg-gray-100 text-gray-800", "Unknown", ""))\<close>\<close>
  "classification_of classification =
     dict_get (map_of CLASSIFICATION_MAP) classification
       (''bg-gray-100 text-gray-800'', ''Unknown'', [])"

section \<open>The detail page\<close>

datatype subval = Text string | Items "string list"

definition score_arg :: "company \<Rightarrow> string \<Rightarrow> pyval" where
  \<comment> \<open>\<open>data.get(k, 0)\<close>, the argument of \<open>get_score_class\<close>\<close>
  "score_arg d k = (case strs d k of Some v \<Rightarrow> PyStr v | None \<Rightarrow> PyInt 0)"

definition company_subs :: "company \<Rightarrow> (string \<times> subval) list" where
  \<comment> \<open>the \<open>dict\<close> \<open>subs\<close> of \<open>generate_company_page\<close>, in the order of its keys\<close>
  "company_subs d =
     (case classification_of (get_str d ''final_classification'' []) of
        (badge_class, short, css_class) \<Rightarrow>
     [(''Ticker'', Text (get_str d ''ticker'' [])),
      (''CompanyName'', Text (get_str d ''company_name'' (get_str d ''ticker'' []))),
      (''FinalClassification'', Text (get_str d ''final_classification'' ''Unknown'')),
      (''BadgeClass'', Text badge_class),
      (''AIScore'', Text (get_str d ''ai_score'' ''N/A'')),
      (''RoboticsScore'', Text (get_str d ''robotics_score'' ''N/A'')),
      (''AIScoreClass'', Text (get_score_class (score_arg d ''ai_score''))),
      (''RoboticsScoreClass'', Text (get_score_class (score_arg d ''robotics_score''))),
      (''ValueChain'', Text (get_str d ''value_chain'' ''Unknown'')),
      (''MacroRisk'', Text (hd (str_split '' - '' (get_str d ''macro_risk'' ''Unknown'')))),
      (''MacroRiskClass'', Text (get_macro_risk_class (get_str d ''macro_risk'' []))),
      (''AIBeneficiary'', Text (get_str d ''ai_beneficiary'' ''N/A'')),
      (''RoboticsBeneficiary'', Text (get_str d ''robotics_beneficiary'' ''N/A'')),
      (''MoatSources'', Text (get_str d ''moat_sources'' ''N/A'')),
      (''KeyInsights'', Items (get_key_insights d)),
      (''Q1'', Text (get_str d ''q1'' ''N/A'')),
      (''Q2'', Text (get_str d ''q2'' ''N/A'')),
      (''Q3'', Text (get_str d ''q3'' ''N/A'')),
      (''Q4'', Text (get_str d ''q4'' ''N/A'')),
      (''Q5'', Text (get_str d ''q5'' ''N/A'')),
      (''Q6'', Text (get_str d ''q6'' ''N/A'')),
      (''Q7'', Text (get_str d ''q7'' ''N/A'')),
      (''Q8'', Text (get_str d ''q8'' ''N/A''))])"

definition substitute :: "string \<Rightarrow> string \<times> subval \<Rightarrow> string" where
  \<comment> \<open>one round of \<open>for key, value in subs.items()\<close>; the f-string \<open>f"{{.{key}}}"\<close> is the
      text \<open>{.key}\<close>, in single braces\<close>
  "substitute result kv =
     (case kv of
        (k, Items xs) \<Rightarrow> result
      | (k, Text v) \<Rightarrow> str_replace (''{.'' @ k @ ''}'') v result)"

definition insights_html :: "string list \<Rightarrow> string" where
  "insights_html xs = concat (map (\<lambda>insight. ''<li>'' @ insight @ ''</li>'' @ [CHR 0x0A]) xs)"

definition company_page :: "string \<Rightarrow> company \<Rightarrow> string" where
  \<comment> \<open>\<open>generate_company_page\<close> after \<open>template = (TEMPLATE_DIR / "company.html").read_text()\<close>\<close>
  "company_page template d =
     (let result = foldl substitute template (company_subs d);
          result = str_replace ''{{range .KeyInsights}}'' [] result;
          result = str_replace ''{{end}}'' [] result
      in str_replace ''<li>{{.}}</li>'' (insights_html (get_key_insights d)) result)"

section \<open>The index page\<close>

record card =
  Ticker :: string
  CompanyName :: string
  ClassificationShort :: string
  ClassificationClass :: string
  BadgeClass :: string
  AIScore :: string
  RoboticsScore :: string
  MoatSources :: string

definition py_or :: "string \<Rightarrow> string \<Rightarrow> string" where
  \<comment> \<open>\<open>a or b\<close> of two texts: the empty text is false\<close>
  "py_or a b = (if a \<noteq> [] then a else b)"

definition make_card :: "company \<Rightarrow> card" where
  \<comment> \<open>the entry \<open>generate_index\<close> appends to \<open>company_data\<close>\<close>
  "make_card c =
     (case classification_of (get_str c ''final_classification'' []) of
        (badge_class, short, css_class) \<Rightarrow>
     \<lparr>Ticker = get_str c ''ticker'' [],
      CompanyName = get_str c ''company_name'' (get_str c ''ticker'' []),
      ClassificationShort = str_replace [CHR 0x0A] '' '' short,
      ClassificationClass = css_class,
      BadgeClass = badge_class,
      AIScore = get_str c ''ai_score'' ''N/A'',
      RoboticsScore = get_str c ''robotics_score'' ''N/A'',
      MoatSources = take 100 (py_or (get_str c ''moat_sources'' []) []) @ ''...''\<rparr>)"

definition initial_stats :: "(string \<times> nat) list" where
  "initial_stats =
     [(''UnsloppableBeneficiary'', 0),
      (''UnsloppableHighTransitionRisk'', 0),
      (''UnsloppableMacroExposed'', 0),
      (''SloppableBeneficiary'', 0),
      (''SloppableClankerable'', 0)]"

definition count_company :: "(string \<times> nat) list \<Rightarrow> company \<Rightarrow> (string \<times> nat) list" where
  \<comment> \<open>\<open>stats[css_class] = stats.get(css_class, 0) + 1\<close>; a \<open>dict\<close> keeps the order in which
      its keys came\<close>
  "count_company stats c =
     (case classification_of (get_str c ''final_classification'' []) of
        (badge_class, short, css_class) \<Rightarrow>
          AList.update css_class (dict_get (map_of stats) css_class 0 + 1) stats)"

definition nl :: string where
  "nl = [CHR 0x0A]"

definition card_html :: "card \<Rightarrow> string" where
  \<comment> \<open>the f-string added to \<open>companies_html\<close>\<close>
  \<open>card_html c = concat
       [nl,
        ''            <a href="/unsloppable-analysis/'', Ticker c, ''.html" '', nl,
        ''               class="block bg-white p-6 rounded-lg shadow hover:shadow-md transition classification-'', ClassificationClass c, ''">'', nl,
        ''                <div class="flex justify-between items-start">'', nl,
        ''                    <div>'', nl,
        ''                        <h3 class="text-lg font-bold">'', Ticker c, ''</h3>'', nl,
        ''                        <p class="text-sm text-gray-600">'', CompanyName c, ''</p>'', nl,
        ''                    </div>'', nl,
        ''                    <span class="px-2 py-1 text-xs font-medium rounded '', BadgeClass c, ''">'', nl,
        ''                        '', str_replace [CHR 0x0A] '' '' (ClassificationShort c), nl,
        ''                    </span>'', nl,
        ''                </div>'', nl,
        ''                <div class="mt-4 grid grid-cols-2 gap-2 text-sm">'', nl,
        ''                    <div>'', nl,
        ''                        <span class="text-gray-500">AI Vuln:</span>'', nl,
        ''                        <span class="font-medium">'', AIScore c, ''/10</span>'', nl,
        ''                    </div>'', nl,
        ''                    <div>'', nl,
        ''                        <span class="text-gray-500">Robot Vuln:</span>'', nl,
        ''                        <span class="font-medium">'', RoboticsScore c, ''/10</span>'', nl,
        ''                    </div>'', nl,
        ''                </div>'', nl,
        ''                <div class="mt-2 text-xs text-gray-500">'', nl,
        ''                    '', MoatSources c, nl,
        ''                </div>'', nl,
        ''            </a>'', nl]\<close>

definition range_block_len :: "string \<Rightarrow> nat option" where
  \<comment> \<open>the length of the match of \<open>\{\{range \.\w+\}\}.*?\{\{end\}\}\<close> (with \<open>re.DOTALL\<close>) at the
      start of \<open>s\<close>: \<open>\w+\<close> takes the whole run of word characters, as \<open>}}\<close> has to follow it,
      and the lazy \<open>.*?\<close> stops at the first \<open>{{end}}\<close>\<close>
  "range_block_len s =
     (if prefix ''{{range .'' s then
        (let r = drop 9 s; w = takeWhile isword r; r2 = dropWhile isword r in
         if w \<noteq> [] \<and> prefix ''}}'' r2 then
           (case str_find ''{{end}}'' (drop 2 r2) of
              Some i \<Rightarrow> Some (9 + length w + 2 + i + 7)
            | None \<Rightarrow> None)
         else None)
      else None)"

function strip_range_blocks :: "string \<Rightarrow> string" where
  \<comment> \<open>\<open>re.sub(r'\{\{range \.\w+\}\}.*?\{\{end\}\}', '', s, flags=re.DOTALL)\<close>\<close>
  "strip_range_blocks s =
     (case s of
        [] \<Rightarrow> []
      | c # cs \<Rightarrow>
          (case range_block_len s of
             Some n \<Rightarrow> strip_range_blocks (drop n s)
           | None \<Rightarrow> c # strip_range_blocks cs))"
  by pat_completeness auto
termination
  by (relation "measure length") (auto simp: range_block_len_def Let_def split: if_splits option.splits)

declare strip_range_blocks.simps [simp del]

definition index_page :: "string \<Rightarrow> company list \<Rightarrow> string" where
  \<comment> \<open>\<open>generate_index\<close> after \<open>template = (TEMPLATE_DIR / "index.html").read_text()\<close>; its
      loop over \<open>companies\<close> counts in \<open>stats\<close> and appends to \<open>company_data\<close>, and neither
      reads the other\<close>
  \<open>index_page template companies =
     (let stats = foldl count_company initial_stats companies;
          company_data = map make_card companies;
          result = foldl (\<lambda>result (k, v). str_replace (''{{.'' @ k @ ''}}'') (str_of_nat v) result)
                     template stats;
          companies_html = concat (map card_html company_data);
          result = strip_range_blocks result
      in str_replace ''id="companies"'' (''id="companies">'' @ companies_html) result)\<close>

section \<open>The driver\<close>

text \<open>
  The files the run reads and writes: the documents in \<open>ANALYSIS_DIR\<close> and the two
  templates, each with the text that \<open>read_text\<close> returns for it, and the pages written,
  each under the path given for it, which is taken from \<open>OUTPUT_DIR\<close>. A file that is not
  there stops the run with \<open>FileNotFoundError\<close>. A write can fail as well, and then stops the
  run: \<open>refused\<close> holds the paths that the file system does not let the run write to, such
  as that of a ticker with a \<open>/\<close> in it, which names a directory that is not there. Which
  paths these are is for the file system to say; two paths that name one file are not part
  of the model. What \<open>ANALYSIS_DIR.glob("*.md")\<close> lists, in the order it lists it, is the
  argument \<open>md_files\<close> of \<open>main\<close>. Creating \<open>OUTPUT_DIR\<close> is not part of the model.
\<close>

record world =
  analysis :: "string \<rightharpoonup> string"
  templates :: "string \<rightharpoonup> string"
  docs :: "string \<rightharpoonup> string"
  refused :: "string set"

datatype error = FileNotFoundError string | WriteError string

definition parse_markdown :: "string \<Rightarrow> world \<Rightarrow> (error + company) \<times> world" where
  "parse_markdown file_path w =
     (case analysis w file_path of
        None \<Rightarrow> (Inl (FileNotFoundError file_path), w)
      | Some content \<Rightarrow> (Inr (parse_content content), w))"

definition generate_company_page :: "company \<Rightarrow> world \<Rightarrow> (error + string) \<times> world" where
  "generate_company_page d w =
     (case templates w ''company.html'' of
        None \<Rightarrow> (Inl (FileNotFoundError ''company.html''), w)
      | Some template \<Rightarrow> (Inr (company_page template d), w))"

definition generate_index :: "company list \<Rightarrow> world \<Rightarrow> (error + string) \<times> world" where
  "generate_index companies w =
     (case templates w ''index.html'' of
        None \<Rightarrow> (Inl (FileNotFoundError ''index.html''), w)
      | Some template \<Rightarrow> (Inr (index_page template companies), w))"

definition write_text :: "string \<Rightarrow> string \<Rightarrow> world \<Rightarrow> (error + unit) \<times> world" where
  \<comment> \<open>\<open>(OUTPUT_DIR / name).write_text(html)\<close>\<close>
  "write_text name html w =
     (if name \<in> refused w then (Inl (WriteError name), w)
      else (Inr (), w\<lparr>docs := (docs w)(name \<mapsto> html)\<rparr>))"

definition truthy :: "string option \<Rightarrow> bool" where
  \<comment> \<open>\<open>if data.get("ticker")\<close>: false for a missing and for an empty ticker\<close>
  "truthy v = (case v of None \<Rightarrow> False | Some t \<Rightarrow> t \<noteq> [])"

fun main_loop :: "string list \<Rightarrow> company list \<Rightarrow> world \<Rightarrow> (error + company list) \<times> world" where
  \<comment> \<open>\<open>for md_file in ANALYSIS_DIR.glob("*.md")\<close>, with the list \<open>companies\<close> so far\<close>
  "main_loop [] companies w = (Inr companies, w)"
| "main_loop (md_file # rest) companies w =
     (case parse_markdown md_file w of
        (Inl e, w1) \<Rightarrow> (Inl e, w1)
      | (Inr data0, w1) \<Rightarrow>
     (case parse_markdown md_file w1 of
        (Inl e, w2) \<Rightarrow> (Inl e, w2)
      | (Inr d, w2) \<Rightarrow>
          if truthy (strs d ''ticker'') then
            (case generate_company_page d w2 of
               (Inl e, w3) \<Rightarrow> (Inl e, w3)
             | (Inr html, w3) \<Rightarrow>
                 (case write_text (get_str d ''ticker'' [] @ ''.html'') html w3 of
                    (Inl e, w4) \<Rightarrow> (Inl e, w4)
                  | (Inr u, w4) \<Rightarrow> main_loop rest (companies @ [d]) w4))
          else main_loop rest companies w2))"

definition main :: "string list \<Rightarrow> world \<Rightarrow> (error + unit) \<times> world" where
  "main md_files w =
     (case main_loop md_files [] w of
        (Inl e, w1) \<Rightarrow> (Inl e, w1)
      | (Inr companies, w1) \<Rightarrow>
          (case generate_index companies w1 of
             (Inl e, w2) \<Rightarrow> (Inl e, w2)
           | (Inr index_html, w2) \<Rightarrow> write_text ''index.html'' index_html w2))"

section \<open>The objects of \<open>parse_markdown\<close>\<close>

text \<open>
  A \<open>dict\<close> and a list are objects that can be changed after they are made, and a second
  call of \<open>parse_markdown\<close> runs with the objects of the first call still there. To say what
  the second call does to them, the parser is written here once more with the objects it
  makes on a heap: \<open>{...}\<close> and \<open>[]\<close> make a new object at a new address, \<open>data[k] = v\<close> and
  \<open>xs.append(x)\<close> change the object at an address, and an entry of a \<open>dict\<close> holds a text or
  the address of a list. The objects are the \<open>dict\<close> \<open>data\<close> and the lists that are stored in
  it (the \<open>[]\<close> it starts with, the list of the flush, \<open>insight_lines\<close>); the lists that never
  leave the call (\<open>lines\<close>, \<open>current_value\<close>, \<open>moat_lines\<close>) stay values.
\<close>

datatype val = VStr string | VList nat

record heap =
  dicts :: "(string \<rightharpoonup> val) list"
  lists :: "string list list"

definition new_dict :: "(string \<rightharpoonup> val) \<Rightarrow> heap \<Rightarrow> nat \<times> heap" where
  "new_dict m h = (length (dicts h), h\<lparr>dicts := dicts h @ [m]\<rparr>)"

definition new_list :: "string list \<Rightarrow> heap \<Rightarrow> nat \<times> heap" where
  "new_list xs h = (length (lists h), h\<lparr>lists := lists h @ [xs]\<rparr>)"

definition dict_set :: "nat \<Rightarrow> string \<Rightarrow> val \<Rightarrow> heap \<Rightarrow> heap" where
  \<comment> \<open>\<open>data[k] = v\<close> for the \<open>dict\<close> at \<open>a\<close>\<close>
  "dict_set a k v h = h\<lparr>dicts := (dicts h)[a := (dicts h ! a)(k \<mapsto> v)]\<rparr>"

definition list_append :: "nat \<Rightarrow> string \<Rightarrow> heap \<Rightarrow> heap" where
  \<comment> \<open>\<open>xs.append(x)\<close> for the list at \<open>r\<close>\<close>
  "list_append r x h = h\<lparr>lists := (lists h)[r := lists h ! r @ [x]]\<rparr>"

definition record_at :: "heap \<Rightarrow> nat \<Rightarrow> company" where
  \<comment> \<open>the Record that the \<open>dict\<close> at \<open>a\<close> holds\<close>
  "record_at h a =
     \<lparr>strs = (\<lambda>k. case (dicts h ! a) k of Some (VStr s) \<Rightarrow> Some s | _ \<Rightarrow> None),
      key_insights = (case (dicts h ! a) ''key_insights'' of
                        Some (VList r) \<Rightarrow> Some (lists h ! r)
                      | _ \<Rightarrow> None)\<rparr>"

definition initial_entries :: "nat \<Rightarrow> (string \<rightharpoonup> val)" where
  \<comment> \<open>the entries of \<open>data = {...}\<close>, with the address of its \<open>[]\<close>\<close>
  "initial_entries r =
     [''ticker'' \<mapsto> VStr [],
      ''company_name'' \<mapsto> VStr [],
      ''ai_score'' \<mapsto> VStr [],
      ''robotics_score'' \<mapsto> VStr [],
      ''ai_beneficiary'' \<mapsto> VStr [],
      ''robotics_beneficiary'' \<mapsto> VStr [],
      ''value_chain'' \<mapsto> VStr [],
      ''final_classification'' \<mapsto> VStr ''TEMP_MARKER'',
      ''macro_risk'' \<mapsto> VStr [],
      ''moat_sources'' \<mapsto> VStr [],
      ''key_insights'' \<mapsto> VList r,
      ''q1'' \<mapsto> VStr [], ''q2'' \<mapsto> VStr [], ''q3'' \<mapsto> VStr [], ''q4'' \<mapsto> VStr [],
      ''q5'' \<mapsto> VStr [], ''q6'' \<mapsto> VStr [], ''q7'' \<mapsto> VStr [], ''q8'' \<mapsto> VStr []]"

fun extract_title_at :: "string list \<Rightarrow> nat \<Rightarrow> heap \<Rightarrow> heap" where
  "extract_title_at [] a h = h"
| "extract_title_at (line # rest) a h =
     (case re_match_title (str_strip line) of
        Some (g1, g2) \<Rightarrow>
          dict_set a ''ticker'' (VStr (str_strip g2))
            (dict_set a ''company_name'' (VStr (str_strip g1)) h)
      | None \<Rightarrow> extract_title_at rest a h)"

definition flush_at :: "nat \<Rightarrow> string option \<Rightarrow> string list \<Rightarrow> heap \<Rightarrow> heap" where
  "flush_at a sec val h =
     (case sec of
        None \<Rightarrow> h
      | Some k \<Rightarrow>
          if k \<noteq> [] \<and> val \<noteq> [] then
            (if k = ''key_insights''
             then (case new_list (map (str_lstrip_chars ''- '')
                                    (filter (\<lambda>l. str_strip l \<noteq> []) val)) h of
                     (r, h1) \<Rightarrow> dict_set a k (VList r) h1)
             else dict_set a k (VStr (str_strip (str_join '' '' val))) h)
          else h)"

definition store_pair_at :: "nat \<Rightarrow> string \<Rightarrow> string \<Rightarrow> heap \<Rightarrow> heap" where
  "store_pair_at a k v h =
     (if k = ''AI Software Vulnerability Score'' then
        (case re_search_digits v of Some g \<Rightarrow> dict_set a ''ai_score'' (VStr g) h | None \<Rightarrow> h)
      else if k = ''Robotics Vulnerability Score'' then
        (case re_search_digits v of Some g \<Rightarrow> dict_set a ''robotics_score'' (VStr g) h | None \<Rightarrow> h)
      else if k = ''AI Beneficiary'' then dict_set a ''ai_beneficiary'' (VStr v) h
      else if k = ''Robotics Beneficiary'' then dict_set a ''robotics_beneficiary'' (VStr v) h
      else if k = ''Value Chain Position'' then dict_set a ''value_chain'' (VStr v) h
      else if k = ''Final Classification'' then dict_set a ''final_classification'' (VStr v) h
      else if k = ''Macro Contagion Risk'' then dict_set a ''macro_risk'' (VStr v) h
      else h)"

record scan_at =
  scan_heap :: heap
  scan_section :: "string option"
  scan_value :: "string list"

definition scan_line_at :: "nat \<Rightarrow> scan_at \<Rightarrow> string \<Rightarrow> scan_at" where
  "scan_line_at a st raw =
     (let line = str_strip raw in
      if line = [] \<or> startswith line ''#'' then
        \<lparr>scan_heap = flush_at a (scan_section st) (scan_value st) (scan_heap st),
         scan_section = None,
         scan_value = []\<rparr>
      else if str_contains '':'' line then
        st\<lparr>scan_heap := store_pair_at a (line_key line) (line_value line) (scan_heap st)\<rparr>
      else st)"

record section_at =
  section_heap :: heap
  now_in_moat :: bool
  now_in_insights :: bool
  moat_so_far :: "string list"

definition section_line_at :: "nat \<Rightarrow> section_at \<Rightarrow> string \<Rightarrow> section_at" where
  \<comment> \<open>the body of the third loop, with \<open>insight_lines\<close> at the address \<open>r\<close>\<close>
  "section_line_at r st raw =
     (let line = str_strip raw in
      if line = ''## Moat Sources'' then st\<lparr>now_in_moat := True, now_in_insights := False\<rparr>
      else if line = ''## Key Insights'' then st\<lparr>now_in_moat := False, now_in_insights := True\<rparr>
      else if startswith line ''## Pressure''
        then st\<lparr>now_in_moat := False, now_in_insights := False\<rparr>
      else if now_in_moat st \<and> line \<noteq> [] then st\<lparr>moat_so_far := moat_so_far st @ [line]\<rparr>
      else if now_in_insights st \<and> startswith line ''- ''
        then st\<lparr>section_heap := list_append r (drop 2 line) (section_heap st)\<rparr>
      else st)"

definition parse_content_at :: "string \<Rightarrow> heap \<Rightarrow> nat \<times> heap" where
  \<comment> \<open>\<open>parse_markdown\<close> after \<open>content = file_path.read_text(encoding='utf-8')\<close>: the address
      of the \<open>dict\<close> it returns, and the heap it leaves\<close>
  "parse_content_at content h =
     (case new_list [] h of (r0, h1) \<Rightarrow>
      case new_dict (initial_entries r0) h1 of (a, h2) \<Rightarrow>
      let lines = str_split [CHR 0x0A] content;
          h3 = extract_title_at lines a h2;
          s = foldl (scan_line_at a)
                \<lparr>scan_heap = h3, scan_section = None, scan_value = []\<rparr> lines
      in case new_list [] (scan_heap s) of (r, h4) \<Rightarrow>
      let t = foldl (section_line_at r)
                \<lparr>section_heap = h4, now_in_moat = False, now_in_insights = False,
                 moat_so_far = []\<rparr> lines;
          h5 = dict_set a ''moat_sources'' (VStr (str_strip (str_join '' '' (moat_so_far t))))
                 (section_heap t)
      in (a, dict_set a ''key_insights'' (VList r) h5))"

definition holds_record :: "heap \<Rightarrow> heap \<Rightarrow> nat \<Rightarrow> company \<Rightarrow> bool" where
  \<comment> \<open>\<open>h\<close> extends \<open>h0\<close> and has, at the new address \<open>a\<close>, a \<open>dict\<close> that holds the Record
      \<open>d\<close> and whose \<open>key_insights\<close> is a new list\<close>
  "holds_record h0 h a d \<longleftrightarrow>
     length (dicts h0) \<le> a \<and> a < length (dicts h)
     \<and> take (length (dicts h0)) (dicts h) = dicts h0
     \<and> take (length (lists h0)) (lists h) = lists h0
     \<and> record_at h a = d
     \<and> (\<exists>r. (dicts h ! a) ''key_insights'' = Some (VList r)
              \<and> length (lists h0) \<le> r \<and> r < length (lists h))"

lemma str_split_nonempty: "str_split sep s \<noteq> []"
  by (subst str_split.simps) (simp split: option.splits)

section \<open>Facts about the text operations\<close>

lemma str_find_None_iff: "str_find sub s = None \<longleftrightarrow> \<not> (\<exists>a b. s = a @ sub @ b)"
proof (induction s)
  case Nil
  then show ?case by simp
next
  case (Cons c cs)
  show ?case
  proof (cases "prefix sub (c # cs)")
    case True
    then obtain b where "c # cs = sub @ b" by (auto simp: prefix_def)
    then have "c # cs = [] @ sub @ b" by simp
    then have "\<exists>a b. c # cs = a @ sub @ b" by blast
    with True show ?thesis by simp
  next
    case False
    have "(\<exists>a b. c # cs = a @ sub @ b) \<longleftrightarrow> (\<exists>a b. cs = a @ sub @ b)"
    proof
      assume "\<exists>a b. c # cs = a @ sub @ b"
      then obtain a b where ab: "c # cs = a @ sub @ b" by blast
      show "\<exists>a b. cs = a @ sub @ b"
      proof (cases a)
        case Nil
        with ab False show ?thesis by (simp add: prefix_def)
      next
        case (Cons x a')
        with ab have "cs = a' @ sub @ b" by simp
        then show ?thesis by blast
      qed
    next
      assume "\<exists>a b. cs = a @ sub @ b"
      then obtain a b where "cs = a @ sub @ b" by blast
      then have "c # cs = (c # a) @ sub @ b" by simp
      then show "\<exists>a b. c # cs = a @ sub @ b" by blast
    qed
    with False Cons.IH show ?thesis by simp
  qed
qed

lemma str_contains_iff: "str_contains sub s \<longleftrightarrow> (\<exists>a b. s = a @ sub @ b)"
  by (simp add: str_contains_def str_find_None_iff)

lemma str_find_Some_first:
  "str_find sub s = Some i \<Longrightarrow>
     s = take i s @ sub @ drop (i + length sub) s \<and>
     (\<forall>a b. s = a @ sub @ b \<longrightarrow> i \<le> length a)"
proof (induction s arbitrary: i)
  case Nil
  then show ?case by (simp split: if_splits)
next
  case (Cons c cs)
  show ?case
  proof (cases "prefix sub (c # cs)")
    case True
    with Cons.prems have i: "i = 0" by simp
    from True obtain b where b: "c # cs = sub @ b" by (auto simp: prefix_def)
    then have "drop (length sub) (c # cs) = b" by (metis append_eq_conv_conj)
    with b i show ?thesis by simp
  next
    case False
    with Cons.prems obtain j where j: "str_find sub cs = Some j" and i: "i = Suc j"
      by (cases "str_find sub cs") simp_all
    from Cons.IH [OF j] have 1: "cs = take j cs @ sub @ drop (j + length sub) cs"
      and 2: "\<forall>a b. cs = a @ sub @ b \<longrightarrow> j \<le> length a" by blast+
    have "\<forall>a b. c # cs = a @ sub @ b \<longrightarrow> i \<le> length a"
    proof (intro allI impI)
      fix a b assume ab: "c # cs = a @ sub @ b"
      show "i \<le> length a"
      proof (cases a)
        case Nil
        with ab False show ?thesis by (simp add: prefix_def)
      next
        case (Cons x a')
        with ab have "cs = a' @ sub @ b" by simp
        with 2 have "j \<le> length a'" by blast
        with Cons i show ?thesis by simp
      qed
    qed
    moreover from 1 i have "c # cs = take i (c # cs) @ sub @ drop (i + length sub) (c # cs)"
      by simp
    ultimately show ?thesis by blast
  qed
qed

lemma hd_str_split:
  "sep \<noteq> [] \<Longrightarrow> hd (str_split sep s) = (case str_find sep s of None \<Rightarrow> s | Some i \<Rightarrow> take i s)"
  by (subst str_split.simps) (simp split: option.splits)

lemma py_or_empty: "py_or s [] = s"
  by (simp add: py_or_def)

lemma concat_has_member: "x \<in> set xs \<Longrightarrow> \<exists>a b. concat xs = a @ x @ b"
proof -
  assume "x \<in> set xs"
  then obtain ys zs where "xs = ys @ x # zs" by (auto dest: split_list)
  then have "concat xs = concat ys @ x @ concat zs" by simp
  then show ?thesis by blast
qed

section \<open>The index card\<close>

text \<open>
  C6. For every Record, the excerpt of the moat sources on its index card is the first 100
  characters of \<open>moat_sources\<close> followed by the three dots. The dots are added whatever the
  length: a text of at most 100 characters, the empty one too, is shown whole and followed
  by the dots. The card's HTML shows this excerpt.
\<close>

theorem moat_excerpt_always_ellipsis:
  "MoatSources (make_card c) = take 100 (get_str c ''moat_sources'' []) @ ''...''
   \<and> (length (get_str c ''moat_sources'' []) \<le> 100 \<longrightarrow>
        MoatSources (make_card c) = get_str c ''moat_sources'' [] @ ''...'')
   \<and> str_contains (MoatSources (make_card c)) (card_html (make_card c))"
proof -
  have 1: "MoatSources (make_card c) = take 100 (get_str c ''moat_sources'' []) @ ''...''"
    by (simp add: make_card_def py_or_empty split: prod.splits)
  have "\<exists>a b. card_html (make_card c) = a @ MoatSources (make_card c) @ b"
    unfolding card_html_def by (rule concat_has_member) simp
  then have 2: "str_contains (MoatSources (make_card c)) (card_html (make_card c))"
    by (simp add: str_contains_iff)
  from 1 2 show ?thesis by simp
qed

theorem moat_excerpt_always_ellipsis_witness:
  "MoatSources (make_card (parse_content ''# Acme (ACME)'')) = ''...''"
proof -
  have e: "get_str (parse_content ''# Acme (ACME)'') ''moat_sources'' [] = []"
    by code_simp
  show ?thesis
    using moat_excerpt_always_ellipsis [of "parse_content ''# Acme (ACME)''"]
    by (simp add: e)
qed

section \<open>The counters of the index page\<close>












section \<open>The macro risk on the detail page\<close>

lemma map_has_sub:
  "(\<exists>a b. map f m = a @ t @ b) \<longleftrightarrow> (\<exists>a x b. m = a @ x @ b \<and> map f x = t)"
proof
  assume "\<exists>a b. map f m = a @ t @ b"
  then obtain a b where "map f m = a @ t @ b" by blast
  then have "\<exists>us vs. m = us @ vs \<and> a = map f us \<and> t @ b = map f vs"
    by (simp only: map_eq_append_conv)
  then obtain us vs where 1: "m = us @ vs" and "t @ b = map f vs" by blast
  then have "map f vs = t @ b" by simp
  then have "\<exists>x ws. vs = x @ ws \<and> t = map f x \<and> b = map f ws"
    by (simp only: map_eq_append_conv)
  then obtain x ws where "vs = x @ ws" "map f x = t" by auto
  with 1 show "\<exists>a x b. m = a @ x @ b \<and> map f x = t" by blast
next
  assume "\<exists>a x b. m = a @ x @ b \<and> map f x = t"
  then obtain a x b where "m = a @ x @ b" "map f x = t" by blast
  then have "map f m = map f a @ t @ map f b" by simp
  then show "\<exists>a b. map f m = a @ t @ b" by blast
qed

lemma str_contains_lower:
  "str_contains t (str_lower m) \<longleftrightarrow> (\<exists>a x b. m = a @ x @ b \<and> str_lower x = t)"
  by (simp add: str_contains_iff str_lower_def map_has_sub)

lemma before_separator:
  assumes "sep \<noteq> []"
  shows "if \<exists>a b. s = a @ sep @ b
         then (\<exists>b. s = hd (str_split sep s) @ sep @ b)
              \<and> (\<forall>a b. s = a @ sep @ b \<longrightarrow> length (hd (str_split sep s)) \<le> length a)
         else hd (str_split sep s) = s"
proof (cases "str_find sep s")
  case None
  then have "\<not> (\<exists>a b. s = a @ sep @ b)" by (simp add: str_find_None_iff)
  with None assms show ?thesis by (simp add: hd_str_split)
next
  case (Some i)
  from str_find_Some_first [OF Some]
  have 1: "s = take i s @ sep @ drop (i + length sep) s"
    and 2: "\<forall>a b. s = a @ sep @ b \<longrightarrow> i \<le> length a" by blast+
  from str_find_bound [OF Some] have len: "length (take i s) = i" by simp
  from Some assms have h: "hd (str_split sep s) = take i s" by (simp add: hd_str_split)
  from 1 have ex: "\<exists>a b. s = a @ sep @ b" by blast
  from 1 have 3: "\<exists>b. s = take i s @ sep @ b" by blast
  from 2 have 4: "\<forall>a b. s = a @ sep @ b \<longrightarrow> length (take i s) \<le> length a"
    by (simp only: len)
  from ex 3 4 show ?thesis by (simp only: h if_True simp_thms)
qed

text \<open>
  C7. For every Record, the style class \<open>MacroRiskClass\<close> of the detail page is chosen from the
  whole \<open>macro_risk\<close> text, whatever the case of its letters: green when a part of it reads
  \<open>low\<close> in lower case, else yellow when a part of it reads \<open>medium\<close>, else red. The text
  \<open>MacroRisk\<close> that the page shows is the part of the value before the first \<open>' - '\<close>, and the
  whole value when it has no \<open>' - '\<close>.
\<close>

theorem macro_risk_class_and_text:
  "map_of (company_subs d) ''MacroRiskClass'' =
     Some (Text (if \<exists>a x b. get_str d ''macro_risk'' [] = a @ x @ b \<and> str_lower x = ''low''
                   then ''text-green-600''
                 else if \<exists>a x b. get_str d ''macro_risk'' [] = a @ x @ b \<and> str_lower x = ''medium''
                   then ''text-yellow-600''
                 else ''text-red-600''))
   \<and> (\<exists>t. map_of (company_subs d) ''MacroRisk'' = Some (Text t)
          \<and> (if \<exists>a b. get_str d ''macro_risk'' ''Unknown'' = a @ '' - '' @ b
              then (\<exists>b. get_str d ''macro_risk'' ''Unknown'' = t @ '' - '' @ b)
                   \<and> (\<forall>a b. get_str d ''macro_risk'' ''Unknown'' = a @ '' - '' @ b
                          \<longrightarrow> length t \<le> length a)
              else t = get_str d ''macro_risk'' ''Unknown''))"
proof
  obtain bc sh css where c: "classification_of (get_str d ''final_classification'' []) = (bc, sh, css)"
    by (cases "classification_of (get_str d ''final_classification'' [])")
  have "map_of (company_subs d) ''MacroRiskClass'' =
          Some (Text (get_macro_risk_class (get_str d ''macro_risk'' [])))"
    by (simp add: company_subs_def c)
  then show "map_of (company_subs d) ''MacroRiskClass'' =
     Some (Text (if \<exists>a x b. get_str d ''macro_risk'' [] = a @ x @ b \<and> str_lower x = ''low''
                   then ''text-green-600''
                 else if \<exists>a x b. get_str d ''macro_risk'' [] = a @ x @ b \<and> str_lower x = ''medium''
                   then ''text-yellow-600''
                 else ''text-red-600''))"
    by (simp only: get_macro_risk_class_def Let_def str_contains_lower)
next
  obtain bc sh css where c: "classification_of (get_str d ''final_classification'' []) = (bc, sh, css)"
    by (cases "classification_of (get_str d ''final_classification'' [])")
  have "map_of (company_subs d) ''MacroRisk'' =
          Some (Text (hd (str_split '' - '' (get_str d ''macro_risk'' ''Unknown''))))"
    by (simp add: company_subs_def c)
  moreover have "'' - '' \<noteq> []" by simp
  note before_separator [OF this, of "get_str d ''macro_risk'' ''Unknown''"]
  ultimately show "\<exists>t. map_of (company_subs d) ''MacroRisk'' = Some (Text t)
          \<and> (if \<exists>a b. get_str d ''macro_risk'' ''Unknown'' = a @ '' - '' @ b
              then (\<exists>b. get_str d ''macro_risk'' ''Unknown'' = t @ '' - '' @ b)
                   \<and> (\<forall>a b. get_str d ''macro_risk'' ''Unknown'' = a @ '' - '' @ b
                          \<longrightarrow> length t \<le> length a)
              else t = get_str d ''macro_risk'' ''Unknown'')"
    by blast
qed

lemma yellow_chosen:
  "Some (Text ''text-yellow-600'') =
     Some (Text (if A then ''text-green-600'' else if B then ''text-yellow-600''
                 else ''text-red-600'')) \<Longrightarrow> B \<and> \<not> A"
  by (simp split: if_splits)

theorem macro_risk_class_and_text_witness:
  "(\<exists>a x b. ''MEDIUM - some exposure'' = a @ x @ b \<and> str_lower x = ''medium'')
   \<and> \<not> (\<exists>a x b. ''MEDIUM - some exposure'' = a @ x @ b \<and> str_lower x = ''low'')
   \<and> map_of (company_subs \<lparr>strs = [''macro_risk'' \<mapsto> ''MEDIUM - some exposure''],
                            key_insights = None\<rparr>) ''MacroRiskClass''
       = Some (Text ''text-yellow-600'')
   \<and> map_of (company_subs \<lparr>strs = [''macro_risk'' \<mapsto> ''MEDIUM - some exposure''],
                            key_insights = None\<rparr>) ''MacroRisk''
       = Some (Text ''MEDIUM'')"
proof -
  let ?d = "\<lparr>strs = [''macro_risk'' \<mapsto> ''MEDIUM - some exposure''], key_insights = None\<rparr>"
  have g: "get_str ?d ''macro_risk'' [] = ''MEDIUM - some exposure''"
    by (simp add: get_str_def dict_get_def)
  have c: "map_of (company_subs ?d) ''MacroRiskClass'' = Some (Text ''text-yellow-600'')"
    by code_simp
  have t: "map_of (company_subs ?d) ''MacroRisk'' = Some (Text ''MEDIUM'')"
    by code_simp
  from macro_risk_class_and_text [of ?d]
  have "Some (Text ''text-yellow-600'') =
     Some (Text (if \<exists>a x b. ''MEDIUM - some exposure'' = a @ x @ b \<and> str_lower x = ''low''
                   then ''text-green-600''
                 else if \<exists>a x b. ''MEDIUM - some exposure'' = a @ x @ b \<and> str_lower x = ''medium''
                   then ''text-yellow-600''
                 else ''text-red-600''))"
    by (simp only: g c)
  then have "(\<exists>a x b. ''MEDIUM - some exposure'' = a @ x @ b \<and> str_lower x = ''medium'')
   \<and> \<not> (\<exists>a x b. ''MEDIUM - some exposure'' = a @ x @ b \<and> str_lower x = ''low'')"
    by (rule yellow_chosen)
  with c t show ?thesis by blast
qed

section \<open>The scan never opens a section\<close>

lemma scan_line_idle:
  assumes "current_section st = None" and "current_value st = []"
  shows "current_section (scan_line st raw) = None"
    and "current_value (scan_line st raw) = []"
    and "data (scan_line st raw) =
           (if str_strip raw = [] \<or> startswith (str_strip raw) ''#'' then data st
            else if str_contains '':'' (str_strip raw)
              then store_pair (data st) (line_key (str_strip raw)) (line_value (str_strip raw))
            else data st)"
  using assms by (simp_all add: scan_line_def Let_def flush_def)

lemma scan_fold_idle:
  assumes "current_section st = None" and "current_value st = []"
  shows "current_section (foldl scan_line st lines) = None
         \<and> current_value (foldl scan_line st lines) = []"
  using assms
proof (induction lines arbitrary: st)
  case Nil
  then show ?case by simp
next
  case (Cons l ls)
  from Cons.prems have "current_section (scan_line st l) = None"
    and "current_value (scan_line st l) = []"
    by (rule scan_line_idle)+
  from Cons.IH [OF this] show ?case by simp
qed

lemma set_str_other: "k \<noteq> j \<Longrightarrow> strs (set_str d j v) k = strs d k"
  by (simp add: set_str_def)

lemma set_str_same: "strs (set_str d j v) j = Some v"
  by (simp add: set_str_def)

lemma set_str_key_insights: "key_insights (set_str d j v) = key_insights d"
  by (simp add: set_str_def)

lemma store_pair_other:
  assumes "k \<notin> set written_keys"
  shows "strs (store_pair d key v) k = strs d k"
proof -
  from assms have "k \<noteq> ''ai_score''" "k \<noteq> ''robotics_score''" "k \<noteq> ''ai_beneficiary''"
    "k \<noteq> ''robotics_beneficiary''" "k \<noteq> ''value_chain''" "k \<noteq> ''final_classification''"
    "k \<noteq> ''macro_risk''"
    by (simp_all add: written_keys_def)
  then show ?thesis
    by (simp add: store_pair_def set_str_other split: option.splits)
qed

lemma store_pair_key_insights: "key_insights (store_pair d key v) = key_insights d"
  by (simp add: store_pair_def set_str_key_insights split: option.splits)

lemma scan_fold_other:
  assumes "current_section st = None" and "current_value st = []" and "k \<notin> set written_keys"
  shows "strs (data (foldl scan_line st lines)) k = strs (data st) k"
  using assms(1,2)
proof (induction lines arbitrary: st)
  case Nil
  then show ?case by simp
next
  case (Cons l ls)
  from Cons.prems have i: "current_section (scan_line st l) = None"
    "current_value (scan_line st l) = []"
    by (rule scan_line_idle)+
  from scan_line_idle(3) [OF Cons.prems] assms(3)
  have "strs (data (scan_line st l)) k = strs (data st) k"
    by (simp add: store_pair_other)
  with Cons.IH [OF i] show ?case by simp
qed

lemma scan_fold_key_insights:
  assumes "current_section st = None" and "current_value st = []"
  shows "key_insights (data (foldl scan_line st lines)) = key_insights (data st)"
  using assms
proof (induction lines arbitrary: st)
  case Nil
  then show ?case by simp
next
  case (Cons l ls)
  from Cons.prems have i: "current_section (scan_line st l) = None"
    "current_value (scan_line st l) = []"
    by (rule scan_line_idle)+
  from scan_line_idle(3) [OF Cons.prems]
  have "key_insights (data (scan_line st l)) = key_insights (data st)"
    by (simp add: store_pair_key_insights)
  with Cons.IH [OF i] show ?case by simp
qed

lemma extract_title_other:
  "k \<noteq> ''company_name'' \<Longrightarrow> k \<noteq> ''ticker'' \<Longrightarrow> strs (extract_title lines d) k = strs d k"
  by (induction lines) (simp_all add: set_str_other split: option.splits)

lemma extract_title_none:
  "\<forall>l \<in> set lines. re_match_title (str_strip l) = None \<Longrightarrow> extract_title lines d = d"
  by (induction lines) simp_all

lemma parse_lines_str:
  assumes "k \<notin> set written_keys" and "k \<noteq> ''moat_sources''"
  shows "strs (parse_lines lines) k = strs (extract_title lines initial_data) k"
proof -
  have "strs (data (foldl scan_line (scan_start (extract_title lines initial_data)) lines)) k
        = strs (data (scan_start (extract_title lines initial_data))) k"
    by (rule scan_fold_other) (simp_all add: scan_start_def assms)
  with assms(2) show ?thesis
    by (simp add: parse_lines_def Let_def set_str_other scan_start_def)
qed

text \<open>
  C10. In the scan for sections, \<open>current_section\<close> is never given a key: after any lines,
  from any Record, it is \<open>None\<close> and \<open>current_value\<close> is empty, so that the flush at a blank
  line or a heading writes nothing into the Record. For every input the entries \<open>q1\<close> to
  \<open>q8\<close> of the Record returned are therefore the empty text, and \<open>moat_sources\<close> and
  \<open>key_insights\<close> are what the pass for the two sections alone collects.
\<close>

theorem first_scan_never_flushes:
  "current_section (foldl scan_line (scan_start d) lines) = None
   \<and> current_value (foldl scan_line (scan_start d) lines) = []
   \<and> flush (data (foldl scan_line (scan_start d) lines))
        (current_section (foldl scan_line (scan_start d) lines))
        (current_value (foldl scan_line (scan_start d) lines))
      = data (foldl scan_line (scan_start d) lines)
   \<and> (\<forall>k \<in> set [''q1'', ''q2'', ''q3'', ''q4'', ''q5'', ''q6'', ''q7'', ''q8''].
         strs (parse_lines lines) k = Some [])
   \<and> strs (parse_lines lines) ''moat_sources''
      = Some (str_strip (str_join '' '' (moat_lines (foldl section_line section_start lines))))
   \<and> key_insights (parse_lines lines)
      = Some (insight_lines (foldl section_line section_start lines))"
proof -
  have idle: "current_section (foldl scan_line (scan_start d) lines) = None
              \<and> current_value (foldl scan_line (scan_start d) lines) = []"
    by (rule scan_fold_idle) (simp_all add: scan_start_def)
  then have fl: "flush (data (foldl scan_line (scan_start d) lines))
        (current_section (foldl scan_line (scan_start d) lines))
        (current_value (foldl scan_line (scan_start d) lines))
      = data (foldl scan_line (scan_start d) lines)"
    by (simp add: flush_def)
  have q: "\<forall>k \<in> set [''q1'', ''q2'', ''q3'', ''q4'', ''q5'', ''q6'', ''q7'', ''q8''].
         strs (parse_lines lines) k = Some []"
  proof
    fix k assume k: "k \<in> set [''q1'', ''q2'', ''q3'', ''q4'', ''q5'', ''q6'', ''q7'', ''q8'']"
    then have "k \<notin> set written_keys" "k \<noteq> ''moat_sources''" "k \<noteq> ''company_name''"
      "k \<noteq> ''ticker''"
      by (auto simp: written_keys_def)
    then have "strs (parse_lines lines) k = strs initial_data k"
      by (simp add: parse_lines_str extract_title_other)
    also from k have "\<dots> = Some []" by (auto simp: initial_data_def)
    finally show "strs (parse_lines lines) k = Some []" .
  qed
  have m: "strs (parse_lines lines) ''moat_sources''
      = Some (str_strip (str_join '' '' (moat_lines (foldl section_line section_start lines))))"
    by (simp add: parse_lines_def Let_def set_str_def)
  have ki: "key_insights (parse_lines lines)
      = Some (insight_lines (foldl section_line section_start lines))"
    by (simp add: parse_lines_def Let_def)
  from idle fl q m ki show ?thesis by blast
qed

theorem first_scan_never_flushes_witness:
  "current_section (foldl scan_line (scan_start initial_data)
      [''## Q1'', ''An answer.'', ''q1: another'', []]) = None
   \<and> strs (parse_lines [''## Q1'', ''An answer.'', ''q1: another'', []]) ''q1'' = Some []"
  using first_scan_never_flushes [of initial_data "[''## Q1'', ''An answer.'', ''q1: another'', []]"]
  by simp

section \<open>Key Insights\<close>

lemma section_line_outside:
  assumes "\<not> in_insights st" and "str_strip raw \<noteq> ''## Key Insights''"
  shows "\<not> in_insights (section_line st raw)"
    and "insight_lines (section_line st raw) = insight_lines st"
  using assms by (simp_all add: section_line_def Let_def)

lemma section_fold_outside:
  assumes "\<not> in_insights st" and "\<forall>l \<in> set ls. str_strip l \<noteq> ''## Key Insights''"
  shows "\<not> in_insights (foldl section_line st ls)
         \<and> insight_lines (foldl section_line st ls) = insight_lines st"
  using assms
proof (induction ls arbitrary: st)
  case Nil
  then show ?case by simp
next
  case (Cons l ls)
  from Cons.prems have l: "str_strip l \<noteq> ''## Key Insights''"
    and ls: "\<forall>l \<in> set ls. str_strip l \<noteq> ''## Key Insights''" by simp_all
  from section_line_outside [OF Cons.prems(1) l]
  have 1: "\<not> in_insights (section_line st l)"
    and 2: "insight_lines (section_line st l) = insight_lines st" .
  from Cons.IH [OF 1 ls] 2 show ?case by simp
qed

lemma section_line_heading:
  assumes "str_strip raw = ''## Key Insights''"
  shows "in_insights (section_line st raw)" and "\<not> in_moat (section_line st raw)"
    and "insight_lines (section_line st raw) = insight_lines st"
  using assms by (simp_all add: section_line_def Let_def)

lemma section_line_inside:
  assumes "in_insights st" and "\<not> in_moat st"
    and "str_strip raw \<noteq> ''## Moat Sources''" and "\<not> startswith (str_strip raw) ''## Pressure''"
  shows "in_insights (section_line st raw)" and "\<not> in_moat (section_line st raw)"
    and "insight_lines (section_line st raw) =
           insight_lines st @ (if startswith (str_strip raw) ''- '' then [drop 2 (str_strip raw)] else [])"
  using assms by (auto simp: section_line_def Let_def startswith_def)

lemma section_fold_inside:
  assumes "in_insights st" and "\<not> in_moat st"
    and "\<forall>l \<in> set ls. str_strip l \<noteq> ''## Moat Sources'' \<and> \<not> startswith (str_strip l) ''## Pressure''"
  shows "in_insights (foldl section_line st ls) \<and> \<not> in_moat (foldl section_line st ls)
         \<and> insight_lines (foldl section_line st ls) =
             insight_lines st @ map (drop 2) (filter (\<lambda>l. startswith l ''- '') (map str_strip ls))"
  using assms
proof (induction ls arbitrary: st)
  case Nil
  then show ?case by simp
next
  case (Cons l ls)
  from Cons.prems(3) have l: "str_strip l \<noteq> ''## Moat Sources''"
    "\<not> startswith (str_strip l) ''## Pressure''"
    and ls: "\<forall>l \<in> set ls. str_strip l \<noteq> ''## Moat Sources'' \<and> \<not> startswith (str_strip l) ''## Pressure''"
    by simp_all
  note s = section_line_inside [OF Cons.prems(1,2) l]
  from Cons.IH [OF s(1,2) ls] s(3) show ?case by simp
qed

lemma section_line_closing:
  assumes "str_strip raw = ''## Moat Sources'' \<or> startswith (str_strip raw) ''## Pressure''"
  shows "\<not> in_insights (section_line st raw)"
    and "insight_lines (section_line st raw) = insight_lines st"
  using assms by (auto simp: section_line_def Let_def startswith_def)

lemma section_fold_after:
  assumes "post = [] \<or>
      ((str_strip (hd post) = ''## Moat Sources'' \<or> startswith (str_strip (hd post)) ''## Pressure'')
       \<and> (\<forall>l \<in> set (tl post). str_strip l \<noteq> ''## Key Insights''))"
  shows "insight_lines (foldl section_line st post) = insight_lines st"
proof (cases post)
  case Nil
  then show ?thesis by simp
next
  case (Cons p ps)
  with assms have c: "str_strip p = ''## Moat Sources'' \<or> startswith (str_strip p) ''## Pressure''"
    and ps: "\<forall>l \<in> set ps. str_strip l \<noteq> ''## Key Insights''" by simp_all
  from section_line_closing [OF c]
  have 1: "\<not> in_insights (section_line st p)"
    and 2: "insight_lines (section_line st p) = insight_lines st" .
  from section_fold_outside [OF 1 ps] 2 Cons show ?thesis by simp
qed

text \<open>
  C5. Take a document with a line \<open>## Key Insights\<close> (the first such line), the lines \<open>body\<close>
  after it up to the end of the document or to the next line that is \<open>## Moat Sources\<close> or
  starts with \<open>## Pressure\<close>, and no further \<open>## Key Insights\<close> line after that. Then
  \<open>key_insights\<close> of the Record is the list of the lines of \<open>body\<close> that start with \<open>- \<close>
  (blanks around a line stripped), each without these two characters, in the order of the
  document. Bullets \<open>- Alpha\<close> and \<open>- Beta\<close> give \<open>["Alpha", "Beta"]\<close>.
\<close>

theorem key_insights_bullets:
  assumes "str_split [CHR 0x0A] content = pre @ heading # body @ post"
    and "\<forall>l \<in> set pre. str_strip l \<noteq> ''## Key Insights''"
    and "str_strip heading = ''## Key Insights''"
    and "\<forall>l \<in> set body. str_strip l \<noteq> ''## Moat Sources''
                        \<and> \<not> startswith (str_strip l) ''## Pressure''"
    and "post = [] \<or>
      ((str_strip (hd post) = ''## Moat Sources'' \<or> startswith (str_strip (hd post)) ''## Pressure'')
       \<and> (\<forall>l \<in> set (tl post). str_strip l \<noteq> ''## Key Insights''))"
  shows "key_insights (parse_content content) =
           Some (map (drop 2) (filter (\<lambda>l. startswith l ''- '') (map str_strip body)))"
proof -
  let ?s1 = "foldl section_line section_start pre"
  let ?s2 = "section_line ?s1 heading"
  let ?s3 = "foldl section_line ?s2 body"
  have "\<not> in_insights section_start" by (simp add: section_start_def)
  from section_fold_outside [OF this assms(2)]
  have 1: "insight_lines ?s1 = []" by (simp add: section_start_def)
  note h = section_line_heading [OF assms(3), of ?s1]
  from section_fold_inside [OF h(1,2) assms(4)] h(3) 1
  have 3: "insight_lines ?s3 =
             map (drop 2) (filter (\<lambda>l. startswith l ''- '') (map str_strip body))"
    by simp
  from section_fold_after [OF assms(5), of ?s3]
  have "insight_lines (foldl section_line section_start (pre @ heading # body @ post))
          = insight_lines ?s3"
    by simp
  with 3 assms(1) show ?thesis
    by (simp add: parse_content_def parse_lines_def Let_def)
qed

theorem key_insights_bullets_witness:
  "key_insights (parse_content (''# Acme (ACME)'' @ [CHR 0x0A] @ ''## Key Insights'' @ [CHR 0x0A]
       @ ''- Alpha'' @ [CHR 0x0A] @ ''not a bullet'' @ [CHR 0x0A] @ ''- Beta'' @ [CHR 0x0A]
       @ ''## Pressure Test'' @ [CHR 0x0A] @ ''- Gamma''))
     = Some [''Alpha'', ''Beta'']"
proof -
  let ?content = "''# Acme (ACME)'' @ [CHR 0x0A] @ ''## Key Insights'' @ [CHR 0x0A]
       @ ''- Alpha'' @ [CHR 0x0A] @ ''not a bullet'' @ [CHR 0x0A] @ ''- Beta'' @ [CHR 0x0A]
       @ ''## Pressure Test'' @ [CHR 0x0A] @ ''- Gamma''"
  have s: "str_split [CHR 0x0A] ?content =
      [''# Acme (ACME)''] @ ''## Key Insights'' # [''- Alpha'', ''not a bullet'', ''- Beta'']
        @ [''## Pressure Test'', ''- Gamma'']"
    by code_simp
  have a: "\<forall>l \<in> set [''# Acme (ACME)'']. str_strip l \<noteq> ''## Key Insights''"
    by code_simp
  have b: "str_strip ''## Key Insights'' = ''## Key Insights''"
    by code_simp
  have c: "\<forall>l \<in> set [''- Alpha'', ''not a bullet'', ''- Beta''].
             str_strip l \<noteq> ''## Moat Sources'' \<and> \<not> startswith (str_strip l) ''## Pressure''"
    by code_simp
  have d: "[''## Pressure Test'', ''- Gamma''] = [] \<or>
      ((str_strip (hd [''## Pressure Test'', ''- Gamma'']) = ''## Moat Sources''
        \<or> startswith (str_strip (hd [''## Pressure Test'', ''- Gamma''])) ''## Pressure'')
       \<and> (\<forall>l \<in> set (tl [''## Pressure Test'', ''- Gamma'']). str_strip l \<noteq> ''## Key Insights''))"
    by code_simp
  have e: "map (drop 2) (filter (\<lambda>l. startswith l ''- '')
             (map str_strip [''- Alpha'', ''not a bullet'', ''- Beta''])) = [''Alpha'', ''Beta'']"
    by code_simp
  from key_insights_bullets [OF s a b c d] e show ?thesis by simp
qed

section \<open>The scores\<close>

lemma greedy_plus_none: "takeWhile P s = [] \<Longrightarrow> greedy_plus P s = []"
  by (simp add: greedy_plus_def)

lemma greedy_plus_longest:
  assumes "takeWhile P s \<noteq> []"
  shows "\<exists>rest. greedy_plus P s = (takeWhile P s, dropWhile P s) # rest"
proof -
  let ?n = "length (takeWhile P s)"
  from assms have "1 \<le> ?n" by (cases "takeWhile P s") simp_all
  then have "[1..<Suc ?n] = [1..<?n] @ [?n]" by simp
  then have "rev [1..<Suc ?n] = ?n # rev [1..<?n]" by simp
  moreover have "take ?n s = takeWhile P s" by (rule takeWhile_eq_take [symmetric])
  moreover have "drop ?n s = dropWhile P s" by (rule dropWhile_eq_drop [symmetric])
  ultimately show ?thesis by (simp add: greedy_plus_def)
qed

lemma re_search_digits_run:
  "re_search_digits v =
     (if \<exists>c \<in> set v. isdigit c
      then Some (takeWhile isdigit (dropWhile (\<lambda>c. \<not> isdigit c) v))
      else None)"
proof (induction v)
  case Nil
  then show ?case by simp
next
  case (Cons c cs)
  show ?case
  proof (cases "isdigit c")
    case True
    then have "takeWhile isdigit (c # cs) \<noteq> []" by simp
    from greedy_plus_longest [OF this] obtain rest where
      "greedy_plus isdigit (c # cs) = (takeWhile isdigit (c # cs), dropWhile isdigit (c # cs)) # rest"
      by blast
    with True show ?thesis by simp
  next
    case False
    then have "greedy_plus isdigit (c # cs) = []" by (simp add: greedy_plus_none)
    with False Cons.IH show ?thesis by simp
  qed
qed

lemma rstrip_keeps_head:
  "\<not> P c \<Longrightarrow> rev (dropWhile P (rev (c # t))) = c # rev (dropWhile P (rev t))"
  by (simp add: dropWhile_append3)

lemma heading_key:
  assumes "startswith line ''#''" and "str_contains '':'' line"
  shows "startswith (line_key line) ''#''"
proof -
  from assms(1) obtain rest where line: "line = CHR ''#'' # rest"
    by (cases line) (auto simp: startswith_def)
  from assms(2) obtain i where i: "str_find '':'' line = Some i"
    by (auto simp: str_contains_def)
  with line obtain j where j: "i = Suc j" by (cases "str_find '':'' rest") auto
  have sp: "\<not> isspace CHR ''#''" by (simp add: isspace_def)
  have st: "\<not> CHR ''#'' \<in> set ''*''" by simp
  have ch: "\<not> CHR ''#'' \<in> set ''-* ''" by simp
  have "take i line = CHR ''#'' # take j rest" by (simp add: line j)
  then have "line_key line =
     str_strip_chars ''-* '' (str_rstrip_chars ''*'' (str_strip (CHR ''#'' # take j rest)))"
    by (simp add: line_key_def str_partition_def i)
  also have "str_strip (CHR ''#'' # take j rest) = CHR ''#'' # rev (dropWhile isspace (rev (take j rest)))"
    using sp by (simp add: str_strip_def dropWhile_append3)
  also have "str_rstrip_chars ''*'' (CHR ''#'' # rev (dropWhile isspace (rev (take j rest))))
     = CHR ''#'' # rev (dropWhile (\<lambda>c. c \<in> set ''*'') (rev (rev (dropWhile isspace (rev (take j rest))))))"
    unfolding str_rstrip_chars_def using st by (rule rstrip_keeps_head)
  also have "str_strip_chars ''-* '' (CHR ''#'' # rev (dropWhile (\<lambda>c. c \<in> set ''*'') (rev (rev (dropWhile isspace (rev (take j rest)))))))
     = CHR ''#'' # rev (dropWhile (\<lambda>c. c \<in> set ''-* '') (rev (rev (dropWhile (\<lambda>c. c \<in> set ''*'') (rev (rev (dropWhile isspace (rev (take j rest)))))))))"
    unfolding str_strip_chars_def str_rstrip_chars_def str_lstrip_chars_def
    using ch by (simp add: dropWhile_append3)
  finally show ?thesis by (simp add: startswith_def)
qed

lemma score_line_not_skipped:
  assumes "str_contains '':'' line"
    and "line_key line = ''AI Software Vulnerability Score''
         \<or> line_key line = ''Robotics Vulnerability Score''"
  shows "\<not> (line = [] \<or> startswith line ''#'')"
proof
  assume "line = [] \<or> startswith line ''#''"
  then show False
  proof
    assume "line = []"
    with assms(1) show False by (simp add: str_contains_def)
  next
    assume "startswith line ''#''"
    from heading_key [OF this assms(1)] assms(2) show False
      by (auto simp: startswith_def)
  qed
qed

lemma store_pair_score:
  assumes "(key_name, field) \<in> {(''AI Software Vulnerability Score'', ''ai_score''),
                                (''Robotics Vulnerability Score'', ''robotics_score'')}"
  shows "strs (store_pair d k v) field =
     (if k = key_name \<and> (\<exists>c \<in> set v. isdigit c)
      then Some (takeWhile isdigit (dropWhile (\<lambda>c. \<not> isdigit c) v))
      else strs d field)"
proof -
  from assms consider
      "key_name = ''AI Software Vulnerability Score''" "field = ''ai_score''"
    | "key_name = ''Robotics Vulnerability Score''" "field = ''robotics_score''"
    by auto
  then show ?thesis
    by cases (simp_all add: store_pair_def re_search_digits_run set_str_def)
qed

lemma scan_line_score:
  assumes pair: "(key_name, field) \<in> {(''AI Software Vulnerability Score'', ''ai_score''),
                                      (''Robotics Vulnerability Score'', ''robotics_score'')}"
    and idle: "current_section st = None" "current_value st = []"
  shows "strs (data (scan_line st raw)) field =
     (if str_contains '':'' (str_strip raw) \<and> line_key (str_strip raw) = key_name
         \<and> (\<exists>c \<in> set (line_value (str_strip raw)). isdigit c)
      then Some (takeWhile isdigit (dropWhile (\<lambda>c. \<not> isdigit c) (line_value (str_strip raw))))
      else strs (data st) field)"
proof (cases "str_strip raw = [] \<or> startswith (str_strip raw) ''#''")
  case True
  have "\<not> (str_contains '':'' (str_strip raw) \<and> line_key (str_strip raw) = key_name)"
  proof
    assume a: "str_contains '':'' (str_strip raw) \<and> line_key (str_strip raw) = key_name"
    with pair have "line_key (str_strip raw) = ''AI Software Vulnerability Score''
         \<or> line_key (str_strip raw) = ''Robotics Vulnerability Score''" by auto
    with a True score_line_not_skipped [of "str_strip raw"] show False by blast
  qed
  with True scan_line_idle(3) [OF idle, of raw] show ?thesis by auto
next
  case False
  with scan_line_idle(3) [OF idle, of raw]
  have "data (scan_line st raw) =
      (if str_contains '':'' (str_strip raw)
       then store_pair (data st) (line_key (str_strip raw)) (line_value (str_strip raw))
       else data st)"
    by simp
  then show ?thesis
    by (cases "str_contains '':'' (str_strip raw)") (auto simp: store_pair_score [OF pair])
qed

lemma scan_fold_score_kept:
  assumes pair: "(key_name, field) \<in> {(''AI Software Vulnerability Score'', ''ai_score''),
                                      (''Robotics Vulnerability Score'', ''robotics_score'')}"
    and idle: "current_section st = None" "current_value st = []"
    and none: "\<forall>l \<in> set ls. \<not> (str_contains '':'' (str_strip l) \<and> line_key (str_strip l) = key_name
                         \<and> (\<exists>c \<in> set (line_value (str_strip l)). isdigit c))"
  shows "strs (data (foldl scan_line st ls)) field = strs (data st) field"
  using idle none
proof (induction ls arbitrary: st)
  case Nil
  then show ?case by simp
next
  case (Cons l ls)
  from Cons.prems(1,2) have i: "current_section (scan_line st l) = None"
    "current_value (scan_line st l) = []"
    by (rule scan_line_idle)+
  from Cons.prems(3) have ls: "\<forall>l \<in> set ls. \<not> (str_contains '':'' (str_strip l)
       \<and> line_key (str_strip l) = key_name \<and> (\<exists>c \<in> set (line_value (str_strip l)). isdigit c))"
    and l: "\<not> (str_contains '':'' (str_strip l)
       \<and> line_key (str_strip l) = key_name \<and> (\<exists>c \<in> set (line_value (str_strip l)). isdigit c))"
    by simp_all
  from scan_line_score [OF pair Cons.prems(1,2), of l] l
  have "strs (data (scan_line st l)) field = strs (data st) field" by simp
  with Cons.IH [OF i ls] show ?case by simp
qed

lemma parse_lines_score:
  assumes pair: "(key_name, field) \<in> {(''AI Software Vulnerability Score'', ''ai_score''),
                                      (''Robotics Vulnerability Score'', ''robotics_score'')}"
  shows "strs (parse_lines lines) field =
           strs (data (foldl scan_line (scan_start (extract_title lines initial_data)) lines)) field"
    and "strs (extract_title lines initial_data) field = Some []"
proof -
  from pair have f: "field \<noteq> ''moat_sources''" "field \<noteq> ''company_name''" "field \<noteq> ''ticker''"
    by auto
  then show "strs (parse_lines lines) field =
           strs (data (foldl scan_line (scan_start (extract_title lines initial_data)) lines)) field"
    by (simp add: parse_lines_def Let_def set_str_other)
  from f have "strs (extract_title lines initial_data) field = strs initial_data field"
    by (simp add: extract_title_other)
  also from pair have "\<dots> = Some []" by (auto simp: initial_data_def)
  finally show "strs (extract_title lines initial_data) field = Some []" .
qed

lemma int_strip_subset: "set (int_strip s) \<subseteq> set s"
  by (auto simp: int_strip_def dest!: set_dropWhileD)

lemma hd_str_split_subset: "set (hd (str_split sep s)) \<subseteq> set s"
  by (subst str_split.simps) (auto split: option.splits dest: in_set_takeD)

lemma int_of_str_no_digit:
  assumes "\<forall>c \<in> set s. \<not> isdigit c"
  shows "int_of_str s = None"
proof -
  let ?t = "int_strip s"
  let ?body = "if startswith ?t ''-'' \<or> startswith ?t ''+'' then drop 1 ?t else ?t"
  let ?groups = "str_split ''_'' ?body"
  have "set ?body \<subseteq> set ?t" by (auto dest: in_set_dropD)
  with int_strip_subset [of s] have "set ?body \<subseteq> set s" by blast
  with hd_str_split_subset [of "''_''" ?body] assms
  have nd: "\<forall>c \<in> set (hd ?groups). \<not> isdigit c" by blast
  have "\<not> list_all (\<lambda>g. g \<noteq> [] \<and> list_all isdigit g) ?groups"
  proof
    assume a: "list_all (\<lambda>g. g \<noteq> [] \<and> list_all isdigit g) ?groups"
    have "?groups \<noteq> []" by (rule str_split_nonempty)
    then have "hd ?groups \<in> set ?groups" by simp
    with a have "hd ?groups \<noteq> []" "list_all isdigit (hd ?groups)"
      by (auto simp: list_all_iff)
    then obtain c where "c \<in> set (hd ?groups)" "isdigit c"
      by (cases "hd ?groups") (auto simp: list_all_iff)
    with nd show False by blast
  qed
  then show ?thesis by (simp add: int_of_str_def Let_def)
qed

text \<open>
  C4. For each of the keys \<open>AI Software Vulnerability Score\<close> and
  \<open>Robotics Vulnerability Score\<close>, with its entry \<open>ai_score\<close> or \<open>robotics_score\<close>: a line with
  a colon whose key (the text before the first colon, stripped of blanks and markup) is that
  key is never skipped as a blank line or heading, and the scan stores the first longest run
  of digits of its value in the entry (the value \<open>7/10\<close> gives \<open>7\<close>); when the value has no
  digit the entry is left as it was. In the Record returned, the entry is the run of digits
  of the last such line that has a digit, and it is the empty text when no such line has a
  digit. A score without a digit, the empty one too, gets the grey class.
\<close>

theorem score_extraction:
  "\<forall>(key_name, field) \<in> {(''AI Software Vulnerability Score'', ''ai_score''),
                         (''Robotics Vulnerability Score'', ''robotics_score'')}.
     (\<forall>st raw. str_contains '':'' (str_strip raw) \<and> line_key (str_strip raw) = key_name \<longrightarrow>
        strs (data (scan_line st raw)) field =
          (if \<exists>c \<in> set (line_value (str_strip raw)). isdigit c
           then Some (takeWhile isdigit
                        (dropWhile (\<lambda>c. \<not> isdigit c) (line_value (str_strip raw))))
           else strs (data st) field))
     \<and> (\<forall>pre raw post.
          str_contains '':'' (str_strip raw) \<and> line_key (str_strip raw) = key_name
          \<and> (\<exists>c \<in> set (line_value (str_strip raw)). isdigit c)
          \<and> (\<forall>l \<in> set post. \<not> (str_contains '':'' (str_strip l) \<and> line_key (str_strip l) = key_name
                                \<and> (\<exists>c \<in> set (line_value (str_strip l)). isdigit c))) \<longrightarrow>
          strs (parse_lines (pre @ raw # post)) field =
            Some (takeWhile isdigit
                    (dropWhile (\<lambda>c. \<not> isdigit c) (line_value (str_strip raw)))))
     \<and> (\<forall>lines.
          (\<forall>l \<in> set lines. \<not> (str_contains '':'' (str_strip l) \<and> line_key (str_strip l) = key_name
                                \<and> (\<exists>c \<in> set (line_value (str_strip l)). isdigit c))) \<longrightarrow>
          strs (parse_lines lines) field = Some [])
     \<and> (\<forall>s. (\<forall>c \<in> set s. \<not> isdigit c) \<longrightarrow> get_score_class (PyStr s) = ''text-gray-600'')"
proof (intro ballI, clarify, intro conjI allI impI)
  fix key_name field :: string and st raw
  assume pair: "(key_name, field) \<in> {(''AI Software Vulnerability Score'', ''ai_score''),
                                     (''Robotics Vulnerability Score'', ''robotics_score'')}"
  assume a: "str_contains '':'' (str_strip raw) \<and> line_key (str_strip raw) = key_name"
  with pair have "line_key (str_strip raw) = ''AI Software Vulnerability Score''
         \<or> line_key (str_strip raw) = ''Robotics Vulnerability Score''" by auto
  with a score_line_not_skipped [of "str_strip raw"]
  have "\<not> (str_strip raw = [] \<or> startswith (str_strip raw) ''#'')" by blast
  with a have "data (scan_line st raw) =
      store_pair (data st) (line_key (str_strip raw)) (line_value (str_strip raw))"
    by (simp add: scan_line_def Let_def)
  with store_pair_score [OF pair] a
  show "strs (data (scan_line st raw)) field =
          (if \<exists>c \<in> set (line_value (str_strip raw)). isdigit c
           then Some (takeWhile isdigit
                        (dropWhile (\<lambda>c. \<not> isdigit c) (line_value (str_strip raw))))
           else strs (data st) field)"
    by simp
next
  fix key_name field :: string and pre post :: "string list" and raw
  assume pair: "(key_name, field) \<in> {(''AI Software Vulnerability Score'', ''ai_score''),
                                     (''Robotics Vulnerability Score'', ''robotics_score'')}"
  assume a: "str_contains '':'' (str_strip raw) \<and> line_key (str_strip raw) = key_name
          \<and> (\<exists>c \<in> set (line_value (str_strip raw)). isdigit c)
          \<and> (\<forall>l \<in> set post. \<not> (str_contains '':'' (str_strip l) \<and> line_key (str_strip l) = key_name
                                \<and> (\<exists>c \<in> set (line_value (str_strip l)). isdigit c)))"
  let ?lines = "pre @ raw # post"
  let ?s0 = "scan_start (extract_title ?lines initial_data)"
  let ?s1 = "foldl scan_line ?s0 pre"
  have i0: "current_section ?s0 = None" "current_value ?s0 = []" by (simp_all add: scan_start_def)
  from scan_fold_idle [OF i0, of pre]
  have i1: "current_section ?s1 = None" "current_value ?s1 = []" by simp_all
  from scan_line_idle(1,2) [OF i1, of raw]
  have i2: "current_section (scan_line ?s1 raw) = None" "current_value (scan_line ?s1 raw) = []" .
  from a have post: "\<forall>l \<in> set post. \<not> (str_contains '':'' (str_strip l)
        \<and> line_key (str_strip l) = key_name \<and> (\<exists>c \<in> set (line_value (str_strip l)). isdigit c))"
    by blast
  have "strs (parse_lines ?lines) field = strs (data (foldl scan_line ?s0 ?lines)) field"
    by (rule parse_lines_score [OF pair])
  also have "\<dots> = strs (data (foldl scan_line (scan_line ?s1 raw) post)) field" by simp
  also from scan_fold_score_kept [OF pair i2 post]
  have "\<dots> = strs (data (scan_line ?s1 raw)) field" .
  also from scan_line_score [OF pair i1, of raw] a
  have "\<dots> = Some (takeWhile isdigit (dropWhile (\<lambda>c. \<not> isdigit c) (line_value (str_strip raw))))"
    by simp
  finally show "strs (parse_lines ?lines) field =
            Some (takeWhile isdigit
                    (dropWhile (\<lambda>c. \<not> isdigit c) (line_value (str_strip raw))))" .
next
  fix key_name field :: string and lines :: "string list"
  assume pair: "(key_name, field) \<in> {(''AI Software Vulnerability Score'', ''ai_score''),
                                     (''Robotics Vulnerability Score'', ''robotics_score'')}"
  assume none: "\<forall>l \<in> set lines. \<not> (str_contains '':'' (str_strip l) \<and> line_key (str_strip l) = key_name
                                \<and> (\<exists>c \<in> set (line_value (str_strip l)). isdigit c))"
  let ?s0 = "scan_start (extract_title lines initial_data)"
  have i0: "current_section ?s0 = None" "current_value ?s0 = []" by (simp_all add: scan_start_def)
  have "strs (parse_lines lines) field = strs (data (foldl scan_line ?s0 lines)) field"
    by (rule parse_lines_score [OF pair])
  also from scan_fold_score_kept [OF pair i0 none]
  have "\<dots> = strs (data ?s0) field" .
  also have "\<dots> = Some []"
    using parse_lines_score(2) [OF pair, of lines] by (simp add: scan_start_def)
  finally show "strs (parse_lines lines) field = Some []" .
next
  fix s assume "\<forall>c \<in> set s. \<not> isdigit c"
  then have "int_of_str s = None" by (rule int_of_str_no_digit)
  then show "get_score_class (PyStr s) = ''text-gray-600''"
    by (simp add: get_score_class_def py_int_def)
qed

theorem score_extraction_witness:
  "strs (data (scan_line (scan_start initial_data) ''- **AI Software Vulnerability Score**: 7/10''))
      ''ai_score'' = Some ''7''
   \<and> strs (parse_lines [''# Acme (ACME)'', ''Robotics Vulnerability Score: high'']) ''robotics_score''
      = Some []
   \<and> get_score_class (PyStr []) = ''text-gray-600''"
proof -
  let ?raw = "''- **AI Software Vulnerability Score**: 7/10''"
  let ?lines = "[''# Acme (ACME)'', ''Robotics Vulnerability Score: high'']"
  have ai: "(''AI Software Vulnerability Score'', ''ai_score'') \<in>
      {(''AI Software Vulnerability Score'', ''ai_score''),
       (''Robotics Vulnerability Score'', ''robotics_score'')}" by simp
  have ro: "(''Robotics Vulnerability Score'', ''robotics_score'') \<in>
      {(''AI Software Vulnerability Score'', ''ai_score''),
       (''Robotics Vulnerability Score'', ''robotics_score'')}" by simp
  note a = bspec [OF score_extraction ai, simplified prod.case]
  note r = bspec [OF score_extraction ro, simplified prod.case]
  have h: "str_contains '':'' (str_strip ?raw)
           \<and> line_key (str_strip ?raw) = ''AI Software Vulnerability Score''"
    by code_simp
  have v: "line_value (str_strip ?raw) = ''7/10''" by code_simp
  have d: "\<exists>c \<in> set ''7/10''. isdigit c" by code_simp
  have t: "takeWhile isdigit (dropWhile (\<lambda>c. \<not> isdigit c) ''7/10'') = ''7''" by code_simp
  from a h have "strs (data (scan_line (scan_start initial_data) ?raw)) ''ai_score'' =
          (if \<exists>c \<in> set (line_value (str_strip ?raw)). isdigit c
           then Some (takeWhile isdigit
                        (dropWhile (\<lambda>c. \<not> isdigit c) (line_value (str_strip ?raw))))
           else strs (data (scan_start initial_data)) ''ai_score'')"
    by blast
  then have 1: "strs (data (scan_line (scan_start initial_data) ?raw)) ''ai_score'' = Some ''7''"
    by (simp only: v d t if_True)
  have n: "\<forall>l \<in> set ?lines. \<not> (str_contains '':'' (str_strip l)
       \<and> line_key (str_strip l) = ''Robotics Vulnerability Score''
       \<and> (\<exists>c \<in> set (line_value (str_strip l)). isdigit c))"
    by code_simp
  from r n have 2: "strs (parse_lines ?lines) ''robotics_score'' = Some []" by blast
  have "\<forall>c \<in> set []. \<not> isdigit c" by simp
  with a have 3: "get_score_class (PyStr []) = ''text-gray-600''" by blast
  from 1 2 3 show ?thesis by blast
qed

section \<open>Documents without a title\<close>

lemma no_title_ticker:
  assumes "\<forall>l \<in> set lines. re_match_title (str_strip l) = None"
  shows "strs (parse_lines lines) ''ticker'' = Some []"
proof -
  have "''ticker'' \<notin> set written_keys" by (simp add: written_keys_def)
  then have "strs (parse_lines lines) ''ticker'' = strs (extract_title lines initial_data) ''ticker''"
    by (rule parse_lines_str) simp
  also from assms have "\<dots> = strs initial_data ''ticker''" by (simp add: extract_title_none)
  also have "\<dots> = Some []" by (simp add: initial_data_def)
  finally show ?thesis .
qed

lemma parse_markdown_found:
  "analysis w p = Some content \<Longrightarrow> parse_markdown p w = (Inr (parse_content content), w)"
  by (simp add: parse_markdown_def)

lemma parse_markdown_missing:
  "analysis w p = None \<Longrightarrow> parse_markdown p w = (Inl (FileNotFoundError p), w)"
  by (simp add: parse_markdown_def)

lemma main_loop_skip:
  assumes "analysis w p = Some content" and "strs (parse_content content) ''ticker'' = Some []"
  shows "main_loop (p # rest) cs w = main_loop rest cs w"
  by (simp add: parse_markdown_found [OF assms(1)] assms(2) truthy_def)

lemma main_loop_drop:
  assumes "analysis w p = Some content" and "strs (parse_content content) ''ticker'' = Some []"
  shows "main_loop (pre @ p # post) cs w = main_loop (pre @ post) cs w"
  using assms(1)
proof (induction pre arbitrary: cs w)
  case Nil
  from main_loop_skip [OF Nil assms(2)] show ?case by simp
next
  case (Cons q pre)
  show ?case
  proof (cases "analysis w q")
    case None
    then show ?thesis by (simp add: parse_markdown_missing)
  next
    case (Some c)
    note found = parse_markdown_found [OF Some]
    show ?thesis
    proof (cases "truthy (strs (parse_content c) ''ticker'')")
      case False
      with Cons.IH [OF Cons.prems] show ?thesis by (simp add: found)
    next
      case True
      show ?thesis
      proof (cases "templates w ''company.html''")
        case None
        then have "generate_company_page (parse_content c) w
                     = (Inl (FileNotFoundError ''company.html''), w)"
          by (simp add: generate_company_page_def)
        with True show ?thesis by (simp add: found)
      next
        case (Some t)
        let ?name = "get_str (parse_content c) ''ticker'' [] @ ''.html''"
        let ?w = "w\<lparr>docs := (docs w)(?name \<mapsto> company_page t (parse_content c))\<rparr>"
        from Some have g: "generate_company_page (parse_content c) w
                     = (Inr (company_page t (parse_content c)), w)"
          by (simp add: generate_company_page_def)
        show ?thesis
        proof (cases "?name \<in> refused w")
          case True
          then have "write_text ?name (company_page t (parse_content c)) w
                       = (Inl (WriteError ?name), w)"
            by (simp add: write_text_def)
          with \<open>truthy (strs (parse_content c) ''ticker'')\<close> show ?thesis
            by (simp add: found g)
        next
          case False
          then have wr: "write_text ?name (company_page t (parse_content c)) w = (Inr (), ?w)"
            by (simp add: write_text_def)
          from Cons.prems have "analysis ?w p = Some content" by simp
          from Cons.IH [OF this] \<open>truthy (strs (parse_content c) ''ticker'')\<close>
          show ?thesis by (simp add: found g wr)
        qed
      qed
    qed
  qed
qed

text \<open>
  C2. When no line of a document matches the title pattern, the Record parsed from it has the
  empty ticker, and the driver passes over the document: the run over a listing with the
  document in it ends with the same list of companies, the same pages written and the same
  index page as the run over the listing without it. So the document gets no detail page,
  is not among the companies, and adds no card and no count to the index page.
\<close>

theorem untitled_document_dropped:
  assumes "analysis w p = Some content"
    and "\<forall>l \<in> set (str_split [CHR 0x0A] content). re_match_title (str_strip l) = None"
  shows "strs (parse_content content) ''ticker'' = Some []
         \<and> main_loop (pre @ p # post) cs w = main_loop (pre @ post) cs w
         \<and> main (pre @ p # post) w = main (pre @ post) w"
proof -
  from assms(2) have t: "strs (parse_content content) ''ticker'' = Some []"
    by (simp add: parse_content_def no_title_ticker)
  from main_loop_drop [OF assms(1) t]
  have l: "\<And>cs. main_loop (pre @ p # post) cs w = main_loop (pre @ post) cs w" .
  then have "main (pre @ p # post) w = main (pre @ post) w" by (simp add: main_def)
  with t l show ?thesis by blast
qed

theorem untitled_document_dropped_witness:
  "strs (parse_content ''Notes on a company, without a title line'') ''ticker'' = Some []
   \<and> main [''a.md'', ''b.md'']
        \<lparr>analysis = [''a.md'' \<mapsto> ''# Acme (ACME)'',
                     ''b.md'' \<mapsto> ''Notes on a company, without a title line''],
         templates = [''company.html'' \<mapsto> ''<h1>{{.Ticker}}</h1>'',
                      ''index.html'' \<mapsto> ''<p>{{.UnsloppableBeneficiary}}</p>''],
         docs = Map.empty, refused = {}\<rparr>
     = main [''a.md'']
        \<lparr>analysis = [''a.md'' \<mapsto> ''# Acme (ACME)'',
                     ''b.md'' \<mapsto> ''Notes on a company, without a title line''],
         templates = [''company.html'' \<mapsto> ''<h1>{{.Ticker}}</h1>'',
                      ''index.html'' \<mapsto> ''<p>{{.UnsloppableBeneficiary}}</p>''],
         docs = Map.empty, refused = {}\<rparr>"
proof -
  let ?w = "\<lparr>analysis = [''a.md'' \<mapsto> ''# Acme (ACME)'',
                     ''b.md'' \<mapsto> ''Notes on a company, without a title line''],
         templates = [''company.html'' \<mapsto> ''<h1>{{.Ticker}}</h1>'',
                      ''index.html'' \<mapsto> ''<p>{{.UnsloppableBeneficiary}}</p>''],
         docs = Map.empty, refused = {}\<rparr>"
  have a: "analysis ?w ''b.md'' = Some ''Notes on a company, without a title line''" by simp
  have n: "\<forall>l \<in> set (str_split [CHR 0x0A] ''Notes on a company, without a title line'').
             re_match_title (str_strip l) = None"
    by code_simp
  from untitled_document_dropped [OF a n, of "[''a.md'']" "[]" "[]"]
  show ?thesis by simp
qed

section \<open>Parsing twice\<close>

lemma holds_dict_set_str:
  assumes "holds_record h0 h a d" and "k \<noteq> ''key_insights''"
  shows "holds_record h0 (dict_set a k (VStr v) h) a (set_str d k v)"
proof -
  from assms(1) have a: "length (dicts h0) \<le> a" "a < length (dicts h)"
    and d: "record_at h a = d"
    by (simp_all add: holds_record_def)
  from a assms(2) have "record_at (dict_set a k (VStr v) h) a = set_str (record_at h a) k v"
    by (auto simp: record_at_def dict_set_def set_str_def fun_eq_iff
        split: option.splits val.splits)
  with assms d show ?thesis
    by (auto simp: holds_record_def dict_set_def)
qed

lemma holds_dict_set_list:
  assumes "holds_record h0 h a d" and "length (lists h0) \<le> r" and "r < length (lists h)"
  shows "holds_record h0 (dict_set a ''key_insights'' (VList r) h) a
           (d\<lparr>key_insights := Some (lists h ! r)\<rparr>)"
proof -
  from assms(1) obtain r0 where a: "length (dicts h0) \<le> a" "a < length (dicts h)"
    and d: "record_at h a = d"
    and r0: "(dicts h ! a) ''key_insights'' = Some (VList r0)"
    by (auto simp: holds_record_def)
  from a r0 have "record_at (dict_set a ''key_insights'' (VList r) h) a
      = (record_at h a)\<lparr>key_insights := Some (lists h ! r)\<rparr>"
    by (auto simp: record_at_def dict_set_def fun_eq_iff split: option.splits val.splits)
  with assms d show ?thesis
    by (auto simp: holds_record_def dict_set_def)
qed

lemma holds_new_list:
  assumes "holds_record h0 h a d"
  shows "holds_record h0 (h\<lparr>lists := lists h @ [xs]\<rparr>) a d"
proof -
  from assms obtain r where r: "(dicts h ! a) ''key_insights'' = Some (VList r)"
    "r < length (lists h)" and d: "record_at h a = d"
    by (auto simp: holds_record_def)
  from r have "record_at (h\<lparr>lists := lists h @ [xs]\<rparr>) a = record_at h a"
    by (simp add: record_at_def nth_append)
  moreover from assms have "length (lists h0) \<le> length (lists h)"
    by (auto simp: holds_record_def)
  ultimately show ?thesis using assms d r
    by (auto simp: holds_record_def)
qed

lemma holds_store_pair:
  "holds_record h0 h a d \<Longrightarrow> holds_record h0 (store_pair_at a k v h) a (store_pair d k v)"
  by (simp add: store_pair_at_def store_pair_def holds_dict_set_str split: option.splits)

lemma holds_extract_title:
  "holds_record h0 h a d \<Longrightarrow>
     holds_record h0 (extract_title_at lines a h) a (extract_title lines d)"
  by (induction lines) (simp_all add: holds_dict_set_str split: option.splits)

lemma scan_line_at_idle:
  "scan_line_at a \<lparr>scan_heap = h, scan_section = None, scan_value = []\<rparr> raw =
     \<lparr>scan_heap = (if str_strip raw = [] \<or> startswith (str_strip raw) ''#'' then h
                   else if str_contains '':'' (str_strip raw)
                     then store_pair_at a (line_key (str_strip raw)) (line_value (str_strip raw)) h
                   else h),
      scan_section = None, scan_value = []\<rparr>"
  by (simp add: scan_line_at_def Let_def flush_at_def)

lemma scan_line_start:
  "scan_line (scan_start d) raw =
     scan_start (if str_strip raw = [] \<or> startswith (str_strip raw) ''#'' then d
                 else if str_contains '':'' (str_strip raw)
                   then store_pair d (line_key (str_strip raw)) (line_value (str_strip raw))
                 else d)"
  by (simp add: scan_line_def scan_start_def Let_def flush_def)

lemma holds_scan_fold:
  "holds_record h0 h a d \<Longrightarrow>
     \<exists>h'. foldl (scan_line_at a) \<lparr>scan_heap = h, scan_section = None, scan_value = []\<rparr> lines
            = \<lparr>scan_heap = h', scan_section = None, scan_value = []\<rparr>
          \<and> holds_record h0 h' a (data (foldl scan_line (scan_start d) lines))"
proof (induction lines arbitrary: h d)
  case Nil
  then show ?case by (simp add: scan_start_def)
next
  case (Cons l ls)
  let ?h = "if str_strip l = [] \<or> startswith (str_strip l) ''#'' then h
            else if str_contains '':'' (str_strip l)
              then store_pair_at a (line_key (str_strip l)) (line_value (str_strip l)) h
            else h"
  let ?d = "if str_strip l = [] \<or> startswith (str_strip l) ''#'' then d
            else if str_contains '':'' (str_strip l)
              then store_pair d (line_key (str_strip l)) (line_value (str_strip l))
            else d"
  from Cons.prems have "holds_record h0 ?h a ?d" by (simp add: holds_store_pair)
  from Cons.IH [OF this] show ?case
    by (simp only: foldl_Cons scan_line_at_idle scan_line_start)
qed

lemma section_line_at_step:
  assumes "r < length (lists h)"
  shows "section_line_at r
           \<lparr>section_heap = h, now_in_moat = m, now_in_insights = i, moat_so_far = ml\<rparr> raw
         = (let st = section_line
                       \<lparr>in_moat = m, in_insights = i, moat_lines = ml,
                        insight_lines = lists h ! r\<rparr> raw
            in \<lparr>section_heap = h\<lparr>lists := (lists h)[r := insight_lines st]\<rparr>,
                now_in_moat = in_moat st, now_in_insights = in_insights st,
                moat_so_far = moat_lines st\<rparr>)"
  using assms by (simp add: section_line_at_def section_line_def Let_def list_append_def)

lemma section_fold_at:
  assumes "r < length (lists h)"
  shows "foldl (section_line_at r)
           \<lparr>section_heap = h, now_in_moat = m, now_in_insights = i, moat_so_far = ml\<rparr> lines
         = (let st = foldl section_line
                       \<lparr>in_moat = m, in_insights = i, moat_lines = ml,
                        insight_lines = lists h ! r\<rparr> lines
            in \<lparr>section_heap = h\<lparr>lists := (lists h)[r := insight_lines st]\<rparr>,
                now_in_moat = in_moat st, now_in_insights = in_insights st,
                moat_so_far = moat_lines st\<rparr>)"
  using assms
proof (induction lines arbitrary: h m i ml)
  case Nil
  then show ?case by simp
next
  case (Cons l ls)
  define st1 where "st1 = section_line
      \<lparr>in_moat = m, in_insights = i, moat_lines = ml, insight_lines = lists h ! r\<rparr> l"
  define h1 where "h1 = h\<lparr>lists := (lists h)[r := insight_lines st1]\<rparr>"
  from Cons.prems have r1: "r < length (lists h1)" by (simp add: h1_def)
  from Cons.prems have l1: "lists h1 ! r = insight_lines st1" by (simp add: h1_def)
  have eta: "\<lparr>in_moat = in_moat st1, in_insights = in_insights st1, moat_lines = moat_lines st1,
              insight_lines = lists h1 ! r\<rparr> = st1"
    by (simp add: l1)
  have upd: "\<And>ys. h1\<lparr>lists := (lists h1)[r := ys]\<rparr> = h\<lparr>lists := (lists h)[r := ys]\<rparr>"
    by (simp add: h1_def)
  have "foldl (section_line_at r)
           \<lparr>section_heap = h, now_in_moat = m, now_in_insights = i, moat_so_far = ml\<rparr> (l # ls)
        = foldl (section_line_at r)
           \<lparr>section_heap = h1, now_in_moat = in_moat st1, now_in_insights = in_insights st1,
            moat_so_far = moat_lines st1\<rparr> ls"
    by (simp only: foldl_Cons section_line_at_step [OF Cons.prems] Let_def st1_def h1_def)
  also from Cons.IH [OF r1, of "in_moat st1" "in_insights st1" "moat_lines st1"]
  have "\<dots> = \<lparr>section_heap = h\<lparr>lists := (lists h)[r := insight_lines (foldl section_line st1 ls)]\<rparr>,
                now_in_moat = in_moat (foldl section_line st1 ls),
                now_in_insights = in_insights (foldl section_line st1 ls),
                moat_so_far = moat_lines (foldl section_line st1 ls)\<rparr>"
    by (simp only: Let_def eta upd)
  finally show ?case by (simp only: Let_def foldl_Cons st1_def)
qed

lemma initial_entries_record:
  "dicts h ! a = initial_entries r \<Longrightarrow> lists h ! r = [] \<Longrightarrow> record_at h a = initial_data"
  by (simp add: record_at_def initial_entries_def initial_data_def fun_eq_iff)

lemma parse_content_at_holds:
  assumes "parse_content_at content h0 = (a, h')"
  shows "holds_record h0 h' a (parse_content content)"
proof -
  let ?lines = "str_split [CHR 0x0A] content"
  let ?a = "length (dicts h0)"
  let ?h2 = "h0\<lparr>lists := lists h0 @ [[]], dicts := dicts h0 @ [initial_entries (length (lists h0))]\<rparr>"
  have "record_at ?h2 ?a = initial_data"
    by (rule initial_entries_record [of _ _ "length (lists h0)"]) simp_all
  then have 2: "holds_record h0 ?h2 ?a initial_data"
    by (simp add: holds_record_def initial_entries_def)
  let ?h3 = "extract_title_at ?lines ?a ?h2"
  let ?d1 = "extract_title ?lines initial_data"
  from 2 have 3: "holds_record h0 ?h3 ?a ?d1" by (rule holds_extract_title)
  from holds_scan_fold [OF 3, of ?lines] obtain hs where
    s: "foldl (scan_line_at ?a) \<lparr>scan_heap = ?h3, scan_section = None, scan_value = []\<rparr> ?lines
          = \<lparr>scan_heap = hs, scan_section = None, scan_value = []\<rparr>"
    and hs: "holds_record h0 hs ?a (data (foldl scan_line (scan_start ?d1) ?lines))"
    by blast
  let ?d2 = "data (foldl scan_line (scan_start ?d1) ?lines)"
  let ?r = "length (lists hs)"
  let ?h4 = "hs\<lparr>lists := lists hs @ [[]]\<rparr>"
  let ?st = "foldl section_line section_start ?lines"
  have r: "?r < length (lists ?h4)" by simp
  from section_fold_at [OF r, of False False "[]" ?lines]
  have t: "foldl (section_line_at ?r)
             \<lparr>section_heap = ?h4, now_in_moat = False, now_in_insights = False, moat_so_far = []\<rparr>
             ?lines
           = \<lparr>section_heap = hs\<lparr>lists := lists hs @ [insight_lines ?st]\<rparr>,
              now_in_moat = in_moat ?st, now_in_insights = in_insights ?st,
              moat_so_far = moat_lines ?st\<rparr>"
    by (simp add: section_start_def Let_def)
  let ?h4' = "hs\<lparr>lists := lists hs @ [insight_lines ?st]\<rparr>"
  from hs have 4: "holds_record h0 ?h4' ?a ?d2" by (rule holds_new_list)
  let ?moat = "str_strip (str_join '' '' (moat_lines ?st))"
  let ?h5 = "dict_set ?a ''moat_sources'' (VStr ?moat) ?h4'"
  from 4 have 5: "holds_record h0 ?h5 ?a (set_str ?d2 ''moat_sources'' ?moat)"
    by (rule holds_dict_set_str) simp
  have l5: "lists ?h5 = lists hs @ [insight_lines ?st]" by (simp add: dict_set_def)
  from hs have "length (lists h0) \<le> ?r" by (auto simp: holds_record_def)
  with holds_dict_set_list [OF 5, of ?r] l5
  have 6: "holds_record h0 (dict_set ?a ''key_insights'' (VList ?r) ?h5) ?a
             ((set_str ?d2 ''moat_sources'' ?moat)\<lparr>key_insights := Some (insight_lines ?st)\<rparr>)"
    by simp
  have pc: "parse_content_at content h0 = (?a, dict_set ?a ''key_insights'' (VList ?r) ?h5)"
    by (simp add: parse_content_at_def new_list_def new_dict_def Let_def s t)
  from 6 have "holds_record h0 (snd (parse_content_at content h0))
                 (fst (parse_content_at content h0)) (parse_content content)"
    by (simp add: pc parse_content_def parse_lines_def Let_def)
  with assms show ?thesis by simp
qed

lemma record_at_kept:
  assumes "holds_record h0 h1 a d" and "holds_record h1 h2 a' d'"
  shows "record_at h2 a = record_at h1 a" and "a \<noteq> a'"
proof -
  from assms(1) obtain r where a: "a < length (dicts h1)"
    and r: "(dicts h1 ! a) ''key_insights'' = Some (VList r)" "r < length (lists h1)"
    by (auto simp: holds_record_def)
  from assms(2) have t: "take (length (dicts h1)) (dicts h2) = dicts h1"
    "take (length (lists h1)) (lists h2) = lists h1" and a': "length (dicts h1) \<le> a'"
    by (auto simp: holds_record_def)
  from a have "dicts h2 ! a = take (length (dicts h1)) (dicts h2) ! a" by simp
  with t have da: "dicts h2 ! a = dicts h1 ! a" by simp
  from r have "lists h2 ! r = take (length (lists h1)) (lists h2) ! r" by simp
  with t have lr: "lists h2 ! r = lists h1 ! r" by simp
  from da lr r show "record_at h2 a = record_at h1 a" by (simp add: record_at_def)
  from a a' show "a \<noteq> a'" by simp
qed

text \<open>
  C9. Parsing is deterministic. Whatever objects there are already, \<open>parse_markdown\<close> makes
  the Record of a text in new objects, and this Record is \<open>parse_content\<close> of the text. So
  when the same text is parsed twice, one call after the other, the second call returns
  another \<open>dict\<close> that holds the same Record, equal in every entry, and it leaves the Record of
  the first call as it was.
\<close>

theorem parse_twice_same_record:
  "case parse_content_at content h of (a1, h1) \<Rightarrow>
   case parse_content_at content h1 of (a2, h2) \<Rightarrow>
     a1 \<noteq> a2
     \<and> record_at h2 a2 = record_at h1 a1
     \<and> record_at h2 a1 = record_at h1 a1
     \<and> record_at h1 a1 = parse_content content"
proof -
  obtain a1 h1 where 1: "parse_content_at content h = (a1, h1)"
    by (cases "parse_content_at content h")
  obtain a2 h2 where 2: "parse_content_at content h1 = (a2, h2)"
    by (cases "parse_content_at content h1")
  note p1 = parse_content_at_holds [OF 1]
  note p2 = parse_content_at_holds [OF 2]
  from p1 have r1: "record_at h1 a1 = parse_content content" by (simp add: holds_record_def)
  from p2 have r2: "record_at h2 a2 = parse_content content" by (simp add: holds_record_def)
  from record_at_kept [OF p1 p2] r1 r2 show ?thesis by (simp add: 1 2)
qed

theorem parse_twice_same_record_witness:
  "key_insights (record_at
      (snd (parse_content_at (''# Acme (ACME)'' @ [CHR 0x0A] @ ''## Key Insights'' @ [CHR 0x0A] @ ''- Alpha'')
         (snd (parse_content_at (''# Acme (ACME)'' @ [CHR 0x0A] @ ''## Key Insights'' @ [CHR 0x0A] @ ''- Alpha'')
            \<lparr>dicts = [], lists = [[''Old'']]\<rparr>)))) 0)
    = Some [''Alpha'']"
proof -
  let ?c = "''# Acme (ACME)'' @ [CHR 0x0A] @ ''## Key Insights'' @ [CHR 0x0A] @ ''- Alpha''"
  let ?h = "\<lparr>dicts = [], lists = [[''Old'']]\<rparr>"
  have a: "fst (parse_content_at ?c ?h) = 0"
    by (simp add: parse_content_at_def new_list_def new_dict_def Let_def split: prod.splits)
  have k: "key_insights (parse_content ?c) = Some [''Alpha'']" by code_simp
  from parse_twice_same_record [of ?c ?h] a k show ?thesis
    by (simp add: split_beta)
qed

section \<open>Defaults that are never used\<close>

text \<open>
  C1. An empty score, and any other field the document does not give, is to be shown as
  \<open>N/A\<close> on the detail page. The code does not do so: \<open>generate_company_page\<close> reads each
  field with \<open>data.get(key, "N/A")\<close>, which gives \<open>N/A\<close> only for a key that is missing,
  and \<open>parse_markdown\<close> stores every key, with the empty text for a field the document does
  not give. For the document \<open># Acme (ACME)\<close>, which has no score line, the page gets the
  empty text where the score goes.
\<close>

theorem empty_score_rendered_empty:
  "strs (parse_content ''# Acme (ACME)'') ''ai_score'' = Some []
   \<and> map_of (company_subs (parse_content ''# Acme (ACME)'')) ''AIScore'' = Some (Text [])
   \<and> map_of (company_subs (parse_content ''# Acme (ACME)'')) ''AIBeneficiary'' = Some (Text [])
   \<and> company_page ''AI: {{.AIScore}}/10'' (parse_content ''# Acme (ACME)'') = ''AI: {}/10''"
proof -
  have 1: "strs (parse_content ''# Acme (ACME)'') ''ai_score'' = Some []" by code_simp
  have 2: "map_of (company_subs (parse_content ''# Acme (ACME)'')) ''AIScore'' = Some (Text [])"
    by code_simp
  have 3: "map_of (company_subs (parse_content ''# Acme (ACME)'')) ''AIBeneficiary'' = Some (Text [])"
    by code_simp
  have 4: "company_page ''AI: {{.AIScore}}/10'' (parse_content ''# Acme (ACME)'') = ''AI: {}/10''"
    by code_simp
  from 1 2 3 4 show ?thesis by blast
qed

text \<open>
  C8. A card is to show the ticker when the company name is empty. The code does not do
  so: \<open>generate_index\<close> reads the name with \<open>c.get("company_name", c.get("ticker", ""))\<close>,
  and here too the key is always there. The title line \<open>#   (X)\<close> (three blanks between the marker and the code)
  matches the title pattern with a name that is one blank: the Record has the ticker \<open>X\<close>
  and the empty name, the driver keeps it, and its card shows the empty name.
\<close>

theorem empty_name_on_card:
  "re_match_title ''#   (X)'' = Some ('' '', ''X'')
   \<and> truthy (strs (parse_content ''#   (X)'') ''ticker'')
   \<and> Ticker (make_card (parse_content ''#   (X)'')) = ''X''
   \<and> CompanyName (make_card (parse_content ''#   (X)'')) = []"
proof -
  have 1: "re_match_title ''#   (X)'' = Some ('' '', ''X'')" by code_simp
  have 2: "truthy (strs (parse_content ''#   (X)'') ''ticker'')" by code_simp
  have 3: "Ticker (make_card (parse_content ''#   (X)'')) = ''X''" by code_simp
  have 4: "CompanyName (make_card (parse_content ''#   (X)'')) = []" by code_simp
  from 1 2 3 4 show ?thesis by blast
qed

end
